theory Spec2Isabelle
  imports Main
begin

section \<open>Tensors and channel slicing\<close>

text \<open>
  The tutorial \<^verbatim>\<open>docs/tutorials/earthquake_detection.ipynb\<close> works on image batches of
  shape \<open>(B, C, H, W)\<close> and on embedding matrices of shape \<open>(B, D)\<close>. A tensor is
  modelled as the nested list of its entries, outermost axis first; the scalar type is
  left open.
\<close>

type_synonym 'a plane = "'a list list"
type_synonym 'a image = "'a plane list"
type_synonym 'a images = "'a image list"
type_synonym 'a matrix = "'a list list"

text \<open>
  \<^verbatim>\<open>img[:, :2]\<close> and \<^verbatim>\<open>img[:, 2:]\<close>: the batch axis is kept whole and the channel axis is
  sliced. A Python slice never raises; on a short axis it returns what is there, as
  \<open>take\<close> and \<open>drop\<close> do.
\<close>

definition channels_to :: "nat \<Rightarrow> 'a images \<Rightarrow> 'a images" where
  "channels_to n img = map (take n) img"

definition channels_from :: "nat \<Rightarrow> 'a images \<Rightarrow> 'a images" where
  "channels_from n img = map (drop n) img"

text \<open>Concatenation of two image batches along the channel axis (axis 1).\<close>

definition cat_channels :: "'a images \<Rightarrow> 'a images \<Rightarrow> 'a images" where
  "cat_channels xs ys = map2 (@) xs ys"

text \<open>The channel indices an axis of \<open>c\<close> channels keeps under \<^verbatim>\<open>[:n]\<close> and \<^verbatim>\<open>[n:]\<close>.\<close>

definition idx_to :: "nat \<Rightarrow> nat \<Rightarrow> nat list" where
  "idx_to n c = [0 ..< min n c]"

definition idx_from :: "nat \<Rightarrow> nat \<Rightarrow> nat list" where
  "idx_from n c = [min n c ..< c]"

definition four_channel :: "'a images \<Rightarrow> bool" where
  "four_channel img = list_all (\<lambda>x. length x = 4) img"

section \<open>Python numbers: \<^verbatim>\<open>int(len(data) * PCT_SAMPLES)\<close>\<close>

text \<open>
  \<^verbatim>\<open>PCT_SAMPLES = 0.1\<close> is a binary64 float, so \<^verbatim>\<open>len(data) * PCT_SAMPLES\<close> converts the
  length to a float and multiplies in floating point; \<^verbatim>\<open>int\<close> then truncates. A
  non-negative finite float is modelled exactly, as a mantissa and a binary exponent;
  every operation rounds its exact result to 53 significant bits, to nearest, ties to
  even. The values met here stay far from the overflow and subnormal ranges.
\<close>

fun bit_length :: "nat \<Rightarrow> nat" where
  "bit_length n = (if n = 0 then 0 else Suc (bit_length (n div 2)))"

declare bit_length.simps [simp del]

definition round_to_53 :: "nat \<Rightarrow> nat" where
  "round_to_53 N =
     (let b = bit_length N in
      if b \<le> 53 then N
      else
        let s = b - 53;
            q = N div 2 ^ s;
            r = N mod 2 ^ s;
            h = 2 ^ (s - 1)
        in (if h < r \<or> (r = h \<and> odd q) then q + 1 else q) * 2 ^ s)"

record pyfloat =
  mant :: nat
  expo :: int

definition float_of_len :: "nat \<Rightarrow> pyfloat" where
  "float_of_len n = \<lparr>mant = round_to_53 n, expo = 0\<rparr>"

definition fmul :: "pyfloat \<Rightarrow> pyfloat \<Rightarrow> pyfloat" where
  "fmul x y = \<lparr>mant = round_to_53 (mant x * mant y), expo = expo x + expo y\<rparr>"

definition py_int :: "pyfloat \<Rightarrow> int" where
  "py_int x =
     (if 0 \<le> expo x then int (mant x * 2 ^ nat (expo x))
      else int (mant x div 2 ^ nat (- expo x)))"

text \<open>The literal \<^verbatim>\<open>0.1\<close>: the double \<open>0x3FB999999999999A\<close>.\<close>

definition PCT_SAMPLES :: pyfloat where
  "PCT_SAMPLES = \<lparr>mant = 3602879701896397, expo = - 55\<rparr>"

definition pct_count :: "nat \<Rightarrow> int" where
  "pct_count n = py_int (fmul (float_of_len n) PCT_SAMPLES)"

text \<open>\<^verbatim>\<open>xs[:k]\<close> for a Python integer \<open>k\<close>: a negative bound counts from the end.\<close>

definition py_slice_to :: "int \<Rightarrow> 'd list \<Rightarrow> 'd list" where
  "py_slice_to k xs =
     (if k < 0 then take (length xs - nat (- k)) xs else take (nat k) xs)"

section \<open>The data module and the subsampling cell\<close>

record 'd dataset =
  data :: "'d list"

record 'd datamodule =
  train_dataset :: "'d dataset"
  val_dataset :: "'d dataset"
  test_dataset :: "'d dataset"

text \<open>\<^verbatim>\<open>ds.data = ds.data[: int(len(ds.data) * PCT_SAMPLES)]\<close>\<close>

definition subsample :: "'d dataset \<Rightarrow> 'd dataset" where
  "subsample ds = ds\<lparr>data := py_slice_to (pct_count (length (data ds))) (data ds)\<rparr>"

definition subsample_cell :: "'d datamodule \<Rightarrow> 'd datamodule" where
  "subsample_cell dm =
     (let dm1 = dm\<lparr>train_dataset := subsample (train_dataset dm)\<rparr>;
          dm2 = dm1\<lparr>val_dataset := subsample (val_dataset dm1)\<rparr>;
          dm3 = dm2\<lparr>test_dataset := subsample (test_dataset dm2)\<rparr>
      in dm3)"

section \<open>Exceptions, library objects and the call trace\<close>

text \<open>
  Every function the notebook imports (torchgeo, torch, numpy, scikit-learn, lightning)
  is outside the repository. Such a call either returns or raises; an exception is a
  value of type \<open>error\<close>. \<open>KeyError\<close> is kept apart because the notebook's own
  subscripts on a plain \<^verbatim>\<open>dict\<close> raise it.
\<close>

datatype error = External string | KeyError string

datatype device = Cpu | Cuda

datatype outcome = Returned | Raised error

datatype 'a call =
    PipInstall | Imports | TmpPath | NewDataModule nat nat
  | PrepareData | Setup string | GetItem nat | Plot
  | CudaIsAvailable | Resnet50 | ModuleTo device | ModuleEval
  | TrainDataloader | TestDataloader | Iterate string
  | TensorTo device "'a images" | Transform "'a images" | Forward bool "'a images"
  | TorchConcat "'a matrix" "'a matrix" | ToNumpy "'a matrix"
  | NpStack string | NpArray string
  | NewRandomForest | ClfFit "'a matrix" "int list" | ClfPredict "'a matrix"
  | ClassificationReport "int list" "int list" | Print string
  | NewTask | NewCheckpoint | NewLogger | NewTrainer | TrainerFit | TrainerTest

text \<open>A \<^verbatim>\<open>torch.nn.Module\<close>: its \<^verbatim>\<open>training\<close> flag and its parameters and buffers.\<close>

record 'o module =
  training :: bool
  params :: 'o

text \<open>A batch is the dictionary \<^verbatim>\<open>{'image': ..., 'label': ...}\<close> a dataloader yields.\<close>

record 'a batch =
  batch_image :: "'a images"
  batch_label :: "int list"

text \<open>
  Iterating a dataloader yields finitely many batches and then either stops
  (\<open>stops = None\<close>) or raises.
\<close>

record 'a loader =
  batches :: "'a batch list"
  stops :: "error option"

text \<open>
  The library, as the notebook sees it. \<open>raises\<close> covers the calls made for their
  effect only (or whose result carries the values of its argument unchanged, as
  \<^verbatim>\<open>.to(DEVICE)\<close> and \<^verbatim>\<open>.cpu().numpy()\<close> do); the other fields are the calls whose
  result the notebook uses. The forward pass of a module receives torch's
  gradient-mode flag and the module, and returns the module as it leaves it.
  \<open>model_transform\<close> is the value the input transform returns;
  \<open>transform_writes\<close> is the content it leaves in the tensor it was handed (the
  identity for a transform that does not work in place).
\<close>

record ('a, 'd, 'o) lib =
  raises :: "'a call \<Rightarrow> error option"
  new_datamodule :: "nat \<Rightarrow> nat \<Rightarrow> error + 'd datamodule"
  dm_setup :: "string \<Rightarrow> 'd datamodule \<Rightarrow> error + 'd datamodule"
  getitem :: "'d dataset \<Rightarrow> nat \<Rightarrow> error + ('a image \<times> int)"
  cuda_is_available :: "error + bool"
  resnet50 :: "error + 'o module"
  model_transform :: "'a images \<Rightarrow> error + 'a images"
  transform_writes :: "'a images \<Rightarrow> 'a images"
  rn_forward :: "bool \<Rightarrow> 'o module \<Rightarrow> 'a images \<Rightarrow> (error + 'a matrix) \<times> 'o module"
  train_dataloader :: "'d datamodule \<Rightarrow> error + 'a loader"
  test_dataloader :: "'d datamodule \<Rightarrow> error + 'a loader"
  new_random_forest :: "error + 'o"
  clf_fit :: "'o \<Rightarrow> 'a matrix \<Rightarrow> int list \<Rightarrow> error + 'o"
  clf_predict :: "'o \<Rightarrow> 'a matrix \<Rightarrow> error + int list"
  classification_report :: "int list \<Rightarrow> int list \<Rightarrow> error + string"

text \<open>
  The interpreter state the claims speak about: the calls made so far with their
  outcomes, torch's gradient mode, and the global \<^verbatim>\<open>rn_model\<close>.
\<close>

record ('a, 'o) world =
  trace :: "('a call \<times> outcome) list"
  grad_enabled :: bool
  rn_model :: "'o module"

type_synonym ('x, 'a, 'o) prog = "('a, 'o) world \<Rightarrow> (error + 'x) \<times> ('a, 'o) world"

definition ret :: "'x \<Rightarrow> ('x, 'a, 'o) prog" where
  "ret x s = (Inr x, s)"

definition raise :: "error \<Rightarrow> ('x, 'a, 'o) prog" where
  "raise e s = (Inl e, s)"

text \<open>Statement sequencing: an exception skips everything after it.\<close>

definition seq :: "('x, 'a, 'o) prog \<Rightarrow> ('x \<Rightarrow> ('y, 'a, 'o) prog) \<Rightarrow> ('y, 'a, 'o) prog" where
  "seq m f s = (case m s of (Inl e, s') \<Rightarrow> (Inl e, s') | (Inr x, s') \<Rightarrow> f x s')"

definition outcome_of :: "error + 'x \<Rightarrow> outcome" where
  "outcome_of r = (case r of Inl e \<Rightarrow> Raised e | Inr _ \<Rightarrow> Returned)"

definition call :: "'a call \<Rightarrow> error + 'x \<Rightarrow> ('x, 'a, 'o) prog" where
  "call c r s = (r, s\<lparr>trace := trace s @ [(c, outcome_of r)]\<rparr>)"

definition call_void :: "('a, 'd, 'o) lib \<Rightarrow> 'a call \<Rightarrow> (unit, 'a, 'o) prog" where
  "call_void L c = call c (case raises L c of None \<Rightarrow> Inr () | Some e \<Rightarrow> Inl e)"

text \<open>
  \<^verbatim>\<open>with torch.no_grad(): body\<close> switches gradient mode off, runs the body and restores
  the previous mode, also when the body raises; it does not swallow the exception.
\<close>

definition no_grad :: "('x, 'a, 'o) prog \<Rightarrow> ('x, 'a, 'o) prog" where
  "no_grad body s =
     (let prev = grad_enabled s;
          (r, s') = body (s\<lparr>grad_enabled := False\<rparr>)
      in (r, s'\<lparr>grad_enabled := prev\<rparr>))"

text \<open>\<^verbatim>\<open>rn_model(x)\<close>: a forward pass of the global module under the current gradient mode.\<close>

definition forward :: "('a, 'd, 'o) lib \<Rightarrow> 'a images \<Rightarrow> ('a matrix, 'a, 'o) prog" where
  "forward L x s =
     (let (r, m') = rn_forward L (grad_enabled s) (rn_model s) x
      in (r, s\<lparr>trace := trace s @ [(Forward (grad_enabled s) x, outcome_of r)],
               rn_model := m'\<rparr>))"

text \<open>
  \<^verbatim>\<open>torch.concat([a, b], axis=1)\<close> on two matrices: the row counts must agree, and row
  \<open>i\<close> of the result is row \<open>i\<close> of \<open>a\<close> followed by row \<open>i\<close> of \<open>b\<close>.
\<close>

definition torch_concat :: "'a matrix \<Rightarrow> 'a matrix \<Rightarrow> error + 'a matrix" where
  "torch_concat a b =
     (if length a = length b then Inr (map2 (@) a b) else Inl (External ''RuntimeError''))"

section \<open>The inference helper\<close>

text \<open>
  \<^verbatim>\<open>
  def infer(batch):
      img = batch['image'].to(DEVICE)
      labels = batch['label']
      pre = model_transform({'image': img[:, :2]})['image']
      post = model_transform({'image': img[:, 2:]})['image']
      with torch.no_grad():
          embs = torch.concat([rn_model(pre), rn_model(post)], axis=1).cpu().numpy()
      return embs, labels
  \<close>
\<close>

definition infer ::
  "('a, 'd, 'o) lib \<Rightarrow> device \<Rightarrow> 'a batch \<Rightarrow> ('a matrix \<times> int list, 'a, 'o) prog" where
  "infer L DEVICE batch =
     seq (call_void L (TensorTo DEVICE (batch_image batch))) (\<lambda>_.
     let img = batch_image batch; labels = batch_label batch in
     seq (call (Transform (channels_to 2 img)) (model_transform L (channels_to 2 img))) (\<lambda>pre.
     seq (call (Transform (channels_from 2 img)) (model_transform L (channels_from 2 img))) (\<lambda>post.
     seq (no_grad
            (seq (forward L pre) (\<lambda>a.
             seq (forward L post) (\<lambda>b.
             seq (call (TorchConcat a b) (torch_concat a b)) (\<lambda>c.
             seq (call_void L (ToNumpy c)) (\<lambda>_.
             ret c)))))) (\<lambda>embs.
     ret (embs, labels)))))"

text \<open>
  The same helper in the words of the specification: the pre-event image is channels
  0 and 1, the post-event image is channels 2 and 3; each is transformed, each goes
  through the feature extractor with gradient tracking off, and the two embeddings are
  joined row by row.
\<close>

definition pre_event :: "'a images \<Rightarrow> 'a images" where
  "pre_event img = map (\<lambda>x. [x ! 0, x ! 1]) img"

definition post_event :: "'a images \<Rightarrow> 'a images" where
  "post_event img = map (\<lambda>x. [x ! 2, x ! 3]) img"

subsection \<open>What \<open>infer\<close> leaves in the batch\<close>





section \<open>The embedding-extraction cell\<close>

text \<open>
  A \<^verbatim>\<open>dict\<close> keeps its keys in insertion order. \<^verbatim>\<open>defaultdict(list)\<close> creates the empty
  list for a missing key when the key is first subscripted.
\<close>

type_synonym 'v pydict = "(string \<times> 'v) list"

fun dict_get :: "'v pydict \<Rightarrow> string \<Rightarrow> 'v option" where
  "dict_get [] k = None"
| "dict_get ((k', v) # d) k = (if k' = k then Some v else dict_get d k)"

fun dict_set :: "'v pydict \<Rightarrow> string \<Rightarrow> 'v \<Rightarrow> 'v pydict" where
  "dict_set [] k v = [(k, v)]"
| "dict_set ((k', v') # d) k v = (if k' = k then (k, v) # d else (k', v') # dict_set d k v)"

definition keys :: "'v pydict \<Rightarrow> string list" where
  "keys d = map fst d"

text \<open>\<^verbatim>\<open>d[k].append(v)\<close> on a \<^verbatim>\<open>defaultdict(list)\<close>.\<close>

definition dd_append :: "'v list pydict \<Rightarrow> string \<Rightarrow> 'v \<Rightarrow> 'v list pydict" where
  "dd_append d k v = dict_set d k ((case dict_get d k of None \<Rightarrow> [] | Some xs \<Rightarrow> xs) @ [v])"

text \<open>The list a \<^verbatim>\<open>defaultdict(list)\<close> holds for a key, created or not.\<close>

definition dd_list :: "'v list pydict \<Rightarrow> string \<Rightarrow> 'v list" where
  "dd_list d k = (case dict_get d k of None \<Rightarrow> [] | Some xs \<Rightarrow> xs)"

text \<open>\<^verbatim>\<open>d[k]\<close> on a plain \<^verbatim>\<open>dict\<close>.\<close>

definition subscript :: "'v pydict \<Rightarrow> string \<Rightarrow> ('v, 'a, 'o) prog" where
  "subscript d k = (case dict_get d k of None \<Rightarrow> raise (KeyError k) | Some v \<Rightarrow> ret v)"

type_synonym 'a accum = "'a list list pydict \<times> int list pydict"

text \<open>
  One iteration of the inner loop:
  \<^verbatim>\<open>embeddings[k].append(emb); labels[k].append(lab)\<close>.
\<close>

definition append_pair :: "string \<Rightarrow> 'a list \<times> int \<Rightarrow> 'a accum \<Rightarrow> 'a accum" where
  "append_pair k p acc = (dd_append (fst acc) k (fst p), dd_append (snd acc) k (snd p))"

text \<open>\<^verbatim>\<open>for j, (emb, lab) in enumerate(zip(*infer(batch))): ...\<close>\<close>

definition append_batch :: "string \<Rightarrow> 'a matrix \<times> int list \<Rightarrow> 'a accum \<Rightarrow> 'a accum" where
  "append_batch k r acc = fold (append_pair k) (zip (fst r) (snd r)) acc"

text \<open>\<^verbatim>\<open>for i, batch in tqdm(enumerate(dataloader)): ...\<close> over the batches yielded.\<close>

fun extract_batches ::
  "('a, 'd, 'o) lib \<Rightarrow> device \<Rightarrow> string \<Rightarrow> 'a batch list \<Rightarrow> 'a accum \<Rightarrow> ('a accum, 'a, 'o) prog" where
  "extract_batches L DEVICE k [] acc = ret acc"
| "extract_batches L DEVICE k (b # bs) acc =
     seq (infer L DEVICE b) (\<lambda>r. extract_batches L DEVICE k bs (append_batch k r acc))"

definition extract_loader ::
  "('a, 'd, 'o) lib \<Rightarrow> device \<Rightarrow> string \<Rightarrow> 'a loader \<Rightarrow> 'a accum \<Rightarrow> ('a accum, 'a, 'o) prog" where
  "extract_loader L DEVICE k ld acc =
     seq (extract_batches L DEVICE k (batches ld) acc) (\<lambda>acc'.
     seq (call (Iterate k) (case stops ld of None \<Rightarrow> Inr () | Some e \<Rightarrow> Inl e)) (\<lambda>_.
     ret acc'))"

text \<open>
  \<^verbatim>\<open>np.stack(v)\<close> on a list of vectors: raises on an empty list and on vectors of
  different lengths; otherwise the matrix with the vectors as rows.
\<close>

definition np_stack :: "'a list list \<Rightarrow> error + 'a matrix" where
  "np_stack v =
     (case v of
        [] \<Rightarrow> Inl (External ''ValueError'')
      | r # rs \<Rightarrow>
          if list_all (\<lambda>x. length x = length r) rs then Inr v
          else Inl (External ''ValueError''))"

text \<open>\<^verbatim>\<open>{k: np.stack(v) for k, v in embeddings.items()}\<close>\<close>

fun stack_items :: "'a list list pydict \<Rightarrow> ('a matrix pydict, 'a, 'o) prog" where
  "stack_items [] = ret []"
| "stack_items ((k, v) # d) =
     seq (call (NpStack k) (np_stack v)) (\<lambda>m.
     seq (stack_items d) (\<lambda>rest.
     ret ((k, m) # rest)))"

text \<open>\<^verbatim>\<open>{k: np.array(v) for k, v in labels.items()}\<close>\<close>

fun array_items :: "('a, 'd, 'o) lib \<Rightarrow> int list pydict \<Rightarrow> (int list pydict, 'a, 'o) prog" where
  "array_items L [] = ret []"
| "array_items L ((k, v) # d) =
     seq (call_void L (NpArray k)) (\<lambda>_.
     seq (array_items L d) (\<lambda>rest.
     ret ((k, v) # rest)))"

definition extraction_cell ::
  "('a, 'd, 'o) lib \<Rightarrow> device \<Rightarrow> 'd datamodule \<Rightarrow>
     ('a matrix pydict \<times> int list pydict, 'a, 'o) prog" where
  "extraction_cell L DEVICE datamodule =
     (let acc0 = ([], []) in
      seq (call TrainDataloader (train_dataloader L datamodule)) (\<lambda>train.
      seq (extract_loader L DEVICE ''train'' train acc0) (\<lambda>acc1.
      seq (call TestDataloader (test_dataloader L datamodule)) (\<lambda>test.
      seq (extract_loader L DEVICE ''test'' test acc1) (\<lambda>acc2.
      seq (stack_items (fst acc2)) (\<lambda>embeddings.
      seq (array_items L (snd acc2)) (\<lambda>labels.
      ret (embeddings, labels))))))))"

text \<open>
  What the claims call the per-sample embeddings of a split: \<open>infer\<close> applied to each
  batch in the order the dataloader yields them, and the (embedding, label) pairs the
  \<^verbatim>\<open>zip\<close> of each result gives, in that order.
\<close>

fun infer_all ::
  "('a, 'd, 'o) lib \<Rightarrow> device \<Rightarrow> 'a batch list \<Rightarrow> (('a matrix \<times> int list) list, 'a, 'o) prog" where
  "infer_all L DEVICE [] = ret []"
| "infer_all L DEVICE (b # bs) =
     seq (infer L DEVICE b) (\<lambda>r.
     seq (infer_all L DEVICE bs) (\<lambda>rs.
     ret (r # rs)))"

definition samples :: "('a matrix \<times> int list) list \<Rightarrow> ('a list \<times> int) list" where
  "samples rs = concat (map (\<lambda>r. zip (fst r) (snd r)) rs)"

text \<open>
  The dictionary a \<^verbatim>\<open>defaultdict(list)\<close> becomes when each listed key receives its
  listed values by \<^verbatim>\<open>append\<close>: a key that receives nothing is never created.
\<close>

definition split_dict :: "(string \<times> 'v list) list \<Rightarrow> 'v list pydict" where
  "split_dict kvs = filter (\<lambda>kv. snd kv \<noteq> []) kvs"

text \<open>
  \<open>infer\<close> over the train dataloader and then over the test dataloader, batch by
  batch in the order yielded.
\<close>

definition infer_splits ::
  "('a, 'd, 'o) lib \<Rightarrow> device \<Rightarrow> 'd datamodule \<Rightarrow>
     (('a matrix \<times> int list) list \<times> ('a matrix \<times> int list) list, 'a, 'o) prog" where
  "infer_splits L DEVICE datamodule =
     seq (call TrainDataloader (train_dataloader L datamodule)) (\<lambda>train.
     seq (infer_all L DEVICE (batches train)) (\<lambda>rs_train.
     seq (call (Iterate ''train'') (case stops train of None \<Rightarrow> Inr () | Some e \<Rightarrow> Inl e)) (\<lambda>_.
     seq (call TestDataloader (test_dataloader L datamodule)) (\<lambda>test.
     seq (infer_all L DEVICE (batches test)) (\<lambda>rs_test.
     seq (call (Iterate ''test'') (case stops test of None \<Rightarrow> Inr () | Some e \<Rightarrow> Inl e)) (\<lambda>_.
     ret (rs_train, rs_test)))))))"

text \<open>Every result has as many embedding rows as labels.\<close>

definition rows_match :: "('a matrix \<times> int list) list \<Rightarrow> bool" where
  "rows_match rs = list_all (\<lambda>r. length (fst r) = length (snd r)) rs"

text \<open>
  The two final dictionaries have the same keys in the same order and, key by key,
  arrays of equal first dimension.
\<close>

definition first_dims_agree :: "'a matrix pydict \<Rightarrow> int list pydict \<Rightarrow> bool" where
  "first_dims_agree embeddings labels =
     list_all2 (\<lambda>e l. fst e = fst l \<and> length (snd e) = length (snd l)) embeddings labels"

definition counts_agree :: "'a accum \<Rightarrow> bool" where
  "counts_agree acc =
     (length (dd_list (fst acc) ''train'') = length (dd_list (snd acc) ''train'') \<and>
      length (dd_list (fst acc) ''test'') = length (dd_list (snd acc) ''test''))"

section \<open>The notebook, cell by cell\<close>

definition num_workers :: nat where "num_workers = 1"
definition batch_size :: nat where "batch_size = 4"
definition max_epochs :: nat where "max_epochs = 10"
definition fast_dev_run :: bool where "fast_dev_run = False"

text \<open>
  \<^verbatim>\<open>
  tmp_path = Path(tempfile.gettempdir())
  datamodule = QuakeSetDataModule(
      batch_size=batch_size, num_workers=num_workers, download=True, root=tmp_path)
  \<close>
\<close>

definition datamodule_cell :: "('a, 'd, 'o) lib \<Rightarrow> ('d datamodule, 'a, 'o) prog" where
  "datamodule_cell L =
     seq (call_void L TmpPath) (\<lambda>_.
     call (NewDataModule batch_size num_workers) (new_datamodule L batch_size num_workers))"

text \<open>\<^verbatim>\<open>datamodule.prepare_data()\<close>\<close>

definition prepare_cell :: "('a, 'd, 'o) lib \<Rightarrow> (unit, 'a, 'o) prog" where
  "prepare_cell L = call_void L PrepareData"

text \<open>
  \<^verbatim>\<open>
  datamodule.setup('fit')
  datamodule.setup('test')
  sample = datamodule.val_dataset[0]
  datamodule.plot(sample)
  \<close>
\<close>

definition plot_cell :: "('a, 'd, 'o) lib \<Rightarrow> 'd datamodule \<Rightarrow> ('d datamodule, 'a, 'o) prog" where
  "plot_cell L datamodule =
     seq (call (Setup ''fit'') (dm_setup L ''fit'' datamodule)) (\<lambda>dm1.
     seq (call (Setup ''test'') (dm_setup L ''test'' dm1)) (\<lambda>dm2.
     seq (call (GetItem 0) (getitem L (val_dataset dm2) 0)) (\<lambda>sample.
     seq (call_void L Plot) (\<lambda>_.
     ret dm2))))"

text \<open>\<^verbatim>\<open>DEVICE = 'cuda' if torch.cuda.is_available() else 'cpu'\<close>\<close>

definition device_cell :: "('a, 'd, 'o) lib \<Rightarrow> (device, 'a, 'o) prog" where
  "device_cell L =
     seq (call CudaIsAvailable (cuda_is_available L)) (\<lambda>b.
     ret (if b then Cuda else Cpu))"

text \<open>
  \<^verbatim>\<open>
  model_transform = ResNet50_Weights.SENTINEL1_ALL_MOCO.transforms
  rn_model = resnet50(ResNet50_Weights.SENTINEL1_ALL_MOCO).to(DEVICE).eval()
  \<close>
  \<^verbatim>\<open>eval()\<close> clears the module's \<^verbatim>\<open>training\<close> flag.
\<close>

definition set_rn_model :: "'o module \<Rightarrow> (unit, 'a, 'o) prog" where
  "set_rn_model m s = (Inr (), s\<lparr>rn_model := m\<rparr>)"

definition model_cell :: "('a, 'd, 'o) lib \<Rightarrow> device \<Rightarrow> (unit, 'a, 'o) prog" where
  "model_cell L DEVICE =
     seq (call Resnet50 (resnet50 L)) (\<lambda>m.
     seq (call_void L (ModuleTo DEVICE)) (\<lambda>_.
     seq (call_void L ModuleEval) (\<lambda>_.
     set_rn_model (m\<lparr>training := False\<rparr>))))"

text \<open>
  \<^verbatim>\<open>
  clf = RandomForestClassifier(n_estimators=100, n_jobs=-1)
  clf.fit(embeddings['train'], labels['train'])
  preds = clf.predict(embeddings['test'])
  print(classification_report(labels['test'], preds))
  \<close>
  Here \<^verbatim>\<open>embeddings\<close> and \<^verbatim>\<open>labels\<close> are the plain dictionaries the comprehensions
  built, so a missing key raises \<^verbatim>\<open>KeyError\<close>.
\<close>

definition classifier_cell ::
  "('a, 'd, 'o) lib \<Rightarrow> 'a matrix pydict \<Rightarrow> int list pydict \<Rightarrow> (unit, 'a, 'o) prog" where
  "classifier_cell L embeddings labels =
     seq (call NewRandomForest (new_random_forest L)) (\<lambda>clf.
     seq (subscript embeddings ''train'') (\<lambda>x_train.
     seq (subscript labels ''train'') (\<lambda>y_train.
     seq (call (ClfFit x_train y_train) (clf_fit L clf x_train y_train)) (\<lambda>clf'.
     seq (subscript embeddings ''test'') (\<lambda>x_test.
     seq (call (ClfPredict x_test) (clf_predict L clf' x_test)) (\<lambda>preds.
     seq (subscript labels ''test'') (\<lambda>y_test.
     seq (call (ClassificationReport y_test preds) (classification_report L y_test preds)) (\<lambda>report.
     call_void L (Print report)))))))))"

text \<open>
  \<^verbatim>\<open>
  task = ClassificationTask(model='resnet18', in_channels=4, task='binary', loss='bce', lr=0.0001)
  default_root_dir = Path(tempfile.gettempdir()) / 'experiments'
  checkpoint_callback = ModelCheckpoint(...)
  logger = CSVLogger(...)
  trainer = Trainer(...)
  trainer.fit(model=task, datamodule=datamodule)
  trainer.test(model=task, datamodule=datamodule)
  \<close>
\<close>

definition trainer_cells :: "('a, 'd, 'o) lib \<Rightarrow> (unit, 'a, 'o) prog" where
  "trainer_cells L =
     seq (call_void L NewTask) (\<lambda>_.
     seq (call_void L TmpPath) (\<lambda>_.
     seq (call_void L NewCheckpoint) (\<lambda>_.
     seq (call_void L NewLogger) (\<lambda>_.
     seq (call_void L NewTrainer) (\<lambda>_.
     seq (call_void L TrainerFit) (\<lambda>_.
     call_void L TrainerTest))))))"

text \<open>The cells up to and including the embedding extraction.\<close>

definition cells_to_extraction ::
  "('a, 'd, 'o) lib \<Rightarrow> ('a matrix pydict \<times> int list pydict, 'a, 'o) prog" where
  "cells_to_extraction L =
     seq (call_void L PipInstall) (\<lambda>_.
     seq (call_void L Imports) (\<lambda>_.
     seq (datamodule_cell L) (\<lambda>dm0.
     seq (prepare_cell L) (\<lambda>_.
     seq (plot_cell L dm0) (\<lambda>dm1.
     seq (device_cell L) (\<lambda>DEVICE.
     let datamodule = subsample_cell dm1 in
     seq (model_cell L DEVICE) (\<lambda>_.
     extraction_cell L DEVICE datamodule)))))))"

text \<open>The cells after it.\<close>

definition cells_after_extraction ::
  "('a, 'd, 'o) lib \<Rightarrow> 'a matrix pydict \<times> int list pydict \<Rightarrow> (unit, 'a, 'o) prog" where
  "cells_after_extraction L dicts =
     seq (classifier_cell L (fst dicts) (snd dicts)) (\<lambda>_.
     trainer_cells L)"

definition notebook :: "('a, 'd, 'o) lib \<Rightarrow> (unit, 'a, 'o) prog" where
  "notebook L = seq (cells_to_extraction L) (cells_after_extraction L)"

section \<open>Reading a trace\<close>

text \<open>The calls a run made between two states, and whether all of them returned.\<close>

definition events_since :: "('a, 'o) world \<Rightarrow> ('a, 'o) world \<Rightarrow> ('a call \<times> outcome) list" where
  "events_since s s' = drop (length (trace s)) (trace s')"

definition clean :: "('a call \<times> outcome) list \<Rightarrow> bool" where
  "clean ev = list_all (\<lambda>e. snd e = Returned) ev"

text \<open>
  The eight steps the specification names, in its order: download (1), setup (2),
  plot (3), embedding inference over the dataloaders (4), fit of the classical model
  (5), its evaluation (6), fit of the deep model (7), its evaluation (8). The other
  calls (constructors, device query, array conversion) belong to no step.
\<close>

fun step_of :: "'a call \<Rightarrow> nat option" where
  "step_of PrepareData = Some 1"
| "step_of (Setup _) = Some 2"
| "step_of Plot = Some 3"
| "step_of TrainDataloader = Some 4"
| "step_of TestDataloader = Some 4"
| "step_of (Iterate _) = Some 4"
| "step_of (TensorTo _ _) = Some 4"
| "step_of (Transform _) = Some 4"
| "step_of (Forward _ _) = Some 4"
| "step_of (TorchConcat _ _) = Some 4"
| "step_of (ToNumpy _) = Some 4"
| "step_of (ClfFit _ _) = Some 5"
| "step_of (ClfPredict _) = Some 6"
| "step_of (ClassificationReport _ _) = Some 6"
| "step_of (Print _) = Some 6"
| "step_of TrainerFit = Some 7"
| "step_of TrainerTest = Some 8"
| "step_of _ = None"

definition steps :: "('a call \<times> outcome) list \<Rightarrow> nat list" where
  "steps ev = List.map_filter (\<lambda>e. step_of (fst e)) ev"

text \<open>
  The calls of the classical-model step that receive arrays or print: \<^verbatim>\<open>fit\<close>,
  \<^verbatim>\<open>predict\<close>, \<^verbatim>\<open>classification_report\<close> and \<^verbatim>\<open>print\<close>, with their outcomes.
\<close>

fun classical :: "'a call \<Rightarrow> bool" where
  "classical (ClfFit _ _) = True"
| "classical (ClfPredict _) = True"
| "classical (ClassificationReport _ _) = True"
| "classical (Print _) = True"
| "classical _ = False"

definition classical_calls :: "('a call \<times> outcome) list \<Rightarrow> ('a call \<times> outcome) list" where
  "classical_calls ev = filter (\<lambda>e. classical (fst e)) ev"

section \<open>Proof vocabulary\<close>

text \<open>
  \<open>emits Q m\<close>: whatever the state, running \<open>m\<close> only appends to the trace, and the
  calls appended, together with the result, satisfy \<open>Q\<close>.
\<close>

definition emits ::
  "(('a call \<times> outcome) list \<Rightarrow> error + 'x \<Rightarrow> bool) \<Rightarrow> ('x, 'a, 'o) prog \<Rightarrow> bool" where
  "emits Q m = (\<forall>s. \<exists>ev. trace (snd (m s)) = trace s @ ev \<and> Q ev (fst (m s)))"

text \<open>
  A run treats library failures as a program without handlers does: either no call
  raised, or exactly one did, it is the last call made, and the run ends with that very
  exception.
\<close>

definition faithful :: "('a call \<times> outcome) list \<Rightarrow> error + 'x \<Rightarrow> bool" where
  "faithful ev r =
     (clean ev \<or>
      (ev \<noteq> [] \<and> clean (butlast ev) \<and>
       (case snd (last ev) of Raised e \<Rightarrow> r = Inl e | Returned \<Rightarrow> False)))"

definition is_ok :: "error + 'x \<Rightarrow> bool" where
  "is_ok r = (case r of Inl e \<Rightarrow> False | Inr x \<Rightarrow> True)"

text \<open>If every call returned, the run completed.\<close>

definition completes :: "('a call \<times> outcome) list \<Rightarrow> error + 'x \<Rightarrow> bool" where
  "completes ev r = (clean ev \<longrightarrow> is_ok r)"

text \<open>No call of the classical-model step was made.\<close>

definition silent :: "('a call \<times> outcome) list \<Rightarrow> error + 'x \<Rightarrow> bool" where
  "silent ev r = (classical_calls ev = [])"

text \<open>
  Coming from step \<open>lo\<close>, the calls made are in step order and end no later than
  step \<open>hi\<close>; if the run completed, every step from \<open>lo\<close> to \<open>hi\<close> has been visited.
\<close>

definition advances :: "nat \<Rightarrow> nat \<Rightarrow> ('a call \<times> outcome) list \<Rightarrow> error + 'x \<Rightarrow> bool" where
  "advances lo hi ev r =
     (lo \<le> hi \<and> sorted (lo # steps ev) \<and> list_all (\<lambda>p. p \<le> hi) (steps ev) \<and>
      (is_ok r \<longrightarrow> set (lo # steps ev) = {lo .. hi}))"


text \<open>The keys of the embeddings dictionary a run builds (none if it fails before).\<close>

definition extracted_keys :: "('a, 'd, 'o) lib \<Rightarrow> ('a, 'o) world \<Rightarrow> string list" where
  "extracted_keys L s =
     (case fst (cells_to_extraction L s) of Inl e \<Rightarrow> [] | Inr dicts \<Rightarrow> keys (fst dicts))"

section \<open>Concrete inputs\<close>

text \<open>A data module with 25 training, 10 validation and 10 test entries.\<close>

definition example_dm :: "nat datamodule" where
  "example_dm =
     \<lparr>train_dataset = \<lparr>data = [100, 101, 102, 103, 104, 105, 106, 107, 108, 109, 110, 111, 112,
                               113, 114, 115, 116, 117, 118, 119, 120, 121, 122, 123, 124]\<rparr>,
      val_dataset = \<lparr>data = [200, 201, 202, 203, 204, 205, 206, 207, 208, 209]\<rparr>,
      test_dataset = \<lparr>data = [300, 301, 302, 303, 304, 305, 306, 307, 308, 309]\<rparr>\<rparr>"

text \<open>
  A library in which every call returns: one batch of one four-channel \<open>1 \<times> 1\<close> image
  per dataset entry, the identity as input transform (it writes nothing), and a feature extractor that
  flattens an image and touches its parameters exactly when it runs in training mode
  or with gradients enabled.
\<close>

definition example_batch :: "nat \<Rightarrow> nat batch" where
  "example_batch d =
     \<lparr>batch_image = [[[[d]], [[d + 1]], [[d + 2]], [[d + 3]]]], batch_label = [int (d mod 2)]\<rparr>"

definition example_loader :: "nat dataset \<Rightarrow> nat loader" where
  "example_loader ds = \<lparr>batches = map example_batch (data ds), stops = None\<rparr>"

definition example_lib :: "nat datamodule \<Rightarrow> (nat, nat, nat) lib" where
  "example_lib dm =
     \<lparr>raises = (\<lambda>c. None),
      new_datamodule = (\<lambda>b w. Inr dm),
      dm_setup = (\<lambda>stage d. Inr d),
      getitem = (\<lambda>ds i. Inr ([], 0)),
      cuda_is_available = Inr False,
      resnet50 = Inr \<lparr>training = True, params = 0\<rparr>,
      model_transform = (\<lambda>x. Inr x),
      transform_writes = (\<lambda>x. x),
      rn_forward = (\<lambda>g m x. (Inr (map (\<lambda>im. concat (concat im)) x),
                              if g \<or> training m then m\<lparr>params := Suc (params m)\<rparr> else m)),
      train_dataloader = (\<lambda>d. Inr (example_loader (train_dataset d))),
      test_dataloader = (\<lambda>d. Inr (example_loader (test_dataset d))),
      new_random_forest = Inr 0,
      clf_fit = (\<lambda>c x y. Inr (Suc c)),
      clf_predict = (\<lambda>c x. Inr (map (\<lambda>row. 1) x)),
      classification_report = (\<lambda>y p. Inr ''report'')\<rparr>"

definition start :: "(nat, nat) world" where
  "start = \<lparr>trace = [], grad_enabled = True, rn_model = \<lparr>training = True, params = 0\<rparr>\<rparr>"

text \<open>The state after the model cell of the example: the module is in eval mode.\<close>

definition eval_start :: "(nat, nat) world" where
  "eval_start = \<lparr>trace = [], grad_enabled = True, rn_model = \<lparr>training = False, params = 0\<rparr>\<rparr>"

text \<open>A library whose \<^verbatim>\<open>plot\<close> raises; everything else is the example library.\<close>

definition failing_lib :: "(nat, nat, nat) lib" where
  "failing_lib =
     (example_lib example_dm)
       \<lparr>raises := (\<lambda>c. if c = Plot then Some (External ''plot'') else None)\<rparr>"

text \<open>A library whose \<^verbatim>\<open>trainer.fit\<close> raises; everything else is the example library.\<close>

definition trainer_failing_lib :: "(nat, nat, nat) lib" where
  "trainer_failing_lib =
     (example_lib example_dm)
       \<lparr>raises := (\<lambda>c. if c = TrainerFit then Some (External ''fit'') else None)\<rparr>"

text \<open>
  A library whose train dataloader yields no batch; everything else is the example
  library.
\<close>

definition empty_train_lib :: "(nat, nat, nat) lib" where
  "empty_train_lib =
     (example_lib example_dm)
       \<lparr>train_dataloader := (\<lambda>d. Inr \<lparr>batches = [], stops = None\<rparr>)\<rparr>"



section \<open>Channel slicing is a partition\<close>

lemma take_drop_two:
  assumes "length x = 4"
  shows "take 2 x = [x ! 0, x ! 1]" and "drop 2 x = [x ! 2, x ! 3]"
proof -
  obtain a b c d where x: "x = [a, b, c, d]"
    using assms by (auto simp: length_Suc_conv numeral_eq_Suc)
  show "take 2 x = [x ! 0, x ! 1]" by (simp add: x)
  show "drop 2 x = [x ! 2, x ! 3]" by (simp add: x numeral_eq_Suc)
qed

lemma map2_take_drop: "map2 (@) (map (take n) xs) (map (drop n) xs) = xs"
  by (induction xs) simp_all

lemma channels_pre_event: "four_channel img \<Longrightarrow> channels_to 2 img = pre_event img"
  by (simp add: channels_to_def pre_event_def four_channel_def list_all_iff take_drop_two)

lemma channels_post_event: "four_channel img \<Longrightarrow> channels_from 2 img = post_event img"
  by (simp add: channels_from_def post_event_def four_channel_def list_all_iff take_drop_two)

text \<open>
  Claim C2. On a batch whose images all have exactly four channels, the slices
  \<^verbatim>\<open>img[:, :2]\<close> and \<^verbatim>\<open>img[:, 2:]\<close> have two channels each, they are channels 0, 1 and
  channels 2, 3 of the input, these index sets are disjoint and together are all four
  indices, and joining the two slices along the channel axis gives the input back.
\<close>

theorem split_is_partition:
  assumes "four_channel img"
  shows "list_all (\<lambda>x. length x = 2) (channels_to 2 img)
       \<and> list_all (\<lambda>x. length x = 2) (channels_from 2 img)
       \<and> channels_to 2 img = map (\<lambda>x. map (\<lambda>i. x ! i) (idx_to 2 4)) img
       \<and> channels_from 2 img = map (\<lambda>x. map (\<lambda>i. x ! i) (idx_from 2 4)) img
       \<and> set (idx_to 2 4) \<inter> set (idx_from 2 4) = {}
       \<and> set (idx_to 2 4) \<union> set (idx_from 2 4) = {0 ..< 4}
       \<and> cat_channels (channels_to 2 img) (channels_from 2 img) = img"
proof -
  have len: "\<And>x. x \<in> set img \<Longrightarrow> length x = 4"
    using assms by (simp add: four_channel_def list_all_iff)
  have i1: "idx_to 2 4 = [0, 1]" by (simp add: idx_to_def upt_rec)
  have i2: "idx_from 2 4 = [2, 3]" by (simp add: idx_from_def upt_rec)
  have a: "list_all (\<lambda>x. length x = 2) (channels_to 2 img)"
    using len by (simp add: channels_to_def list_all_iff)
  have b: "list_all (\<lambda>x. length x = 2) (channels_from 2 img)"
    using len by (simp add: channels_from_def list_all_iff)
  have c: "channels_to 2 img = map (\<lambda>x. map (\<lambda>i. x ! i) (idx_to 2 4)) img"
    using len by (simp add: channels_to_def i1 take_drop_two)
  have d: "channels_from 2 img = map (\<lambda>x. map (\<lambda>i. x ! i) (idx_from 2 4)) img"
    using len by (simp add: channels_from_def i2 take_drop_two)
  have e: "set (idx_to 2 4) \<inter> set (idx_from 2 4) = {}" by (simp add: i1 i2)
  have f: "set (idx_to 2 4) \<union> set (idx_from 2 4) = {0 ..< 4}"
    unfolding i1 i2 by auto
  have g: "cat_channels (channels_to 2 img) (channels_from 2 img) = img"
    by (simp add: cat_channels_def channels_to_def channels_from_def map2_take_drop)
  from a b c d e f g show ?thesis by blast
qed

theorem split_is_partition_witness:
  "four_channel [[[[1::nat]], [[2]], [[3]], [[4]]]]
   \<and> channels_to 2 [[[[1::nat]], [[2]], [[3]], [[4]]]] = [[[[1]], [[2]]]]
   \<and> channels_from 2 [[[[1::nat]], [[2]], [[3]], [[4]]]] = [[[[3]], [[4]]]]
   \<and> cat_channels (channels_to 2 [[[[1::nat]], [[2]], [[3]], [[4]]]])
        (channels_from 2 [[[[1::nat]], [[2]], [[3]], [[4]]]]) = [[[[1]], [[2]], [[3]], [[4]]]]"
proof -
  have h: "four_channel [[[[1::nat]], [[2]], [[3]], [[4]]]]"
    by (simp add: four_channel_def)
  have "cat_channels (channels_to 2 [[[[1::nat]], [[2]], [[3]], [[4]]]])
          (channels_from 2 [[[[1::nat]], [[2]], [[3]], [[4]]]]) = [[[[1]], [[2]], [[3]], [[4]]]]"
    using split_is_partition [OF h] by blast
  then show ?thesis
    using h by (simp add: channels_to_def channels_from_def)
qed

section \<open>The subsampling cell keeps a prefix\<close>

lemma bit_length_le: "N < 2 ^ j \<Longrightarrow> bit_length N \<le> j"
proof (induction N arbitrary: j rule: bit_length.induct)
  case (1 n)
  show ?case
  proof (cases "n = 0")
    case True
    then show ?thesis by (simp add: bit_length.simps)
  next
    case False
    then obtain j' where j: "j = Suc j'" using "1.prems" by (cases j) auto
    have "n < 2 * 2 ^ j'" using "1.prems" j by simp
    then have "n div 2 < 2 ^ j'" by linarith
    then have "bit_length (n div 2) \<le> j'" using "1.IH" False by blast
    then show ?thesis using False j by (simp add: bit_length.simps[of n])
  qed
qed

lemma round_to_53_small: "N < 2 ^ 53 \<Longrightarrow> round_to_53 N = N"
  using bit_length_le[of N 53] by (simp add: round_to_53_def)

lemma round_to_53_cases:
  assumes "53 < bit_length N"
  defines "s \<equiv> bit_length N - 53"
  shows "round_to_53 N = (N div 2 ^ s) * 2 ^ s \<or>
         (round_to_53 N = (N div 2 ^ s + 1) * 2 ^ s \<and> 2 ^ (s - 1) \<le> N mod 2 ^ s)"
  using assms by (auto simp: round_to_53_def Let_def)

lemma round_to_53_bounds:
  assumes big: "53 < bit_length N" and sp: "bit_length N - 53 \<le> p"
    and lo: "K * 2 ^ p \<le> N"
    and hi: "N + 2 ^ (bit_length N - 54) < (K + 1) * 2 ^ p"
  shows "K * 2 ^ p \<le> round_to_53 N \<and> round_to_53 N < (K + 1) * 2 ^ p"
proof -
  define s where "s = bit_length N - 53"
  have s1: "1 \<le> s" using big by (simp add: s_def)
  have s54: "bit_length N - 54 = s - 1" by (simp add: s_def)
  define q where "q = N div 2 ^ s"
  define r where "r = N mod 2 ^ s"
  have N_eq: "N = q * 2 ^ s + r"
    unfolding q_def r_def by (rule div_mult_mod_eq[symmetric])
  have two_s: "(2::nat) ^ s = 2 * 2 ^ (s - 1)" using s1 by (cases s) simp_all
  have split: "(2::nat) ^ p = 2 ^ (p - s) * 2 ^ s"
    using sp by (simp add: s_def flip: power_add)
  have "(K * 2 ^ (p - s)) * 2 ^ s \<le> N" using lo split by (simp add: mult.assoc)
  then have "K * 2 ^ (p - s) \<le> q" unfolding q_def
    by (simp add: less_eq_div_iff_mult_less_eq)
  then have "(K * 2 ^ (p - s)) * 2 ^ s \<le> q * 2 ^ s" by (rule mult_le_mono1)
  then have low_q: "K * 2 ^ p \<le> q * 2 ^ s" using split by (simp add: mult.assoc)
  have cases: "round_to_53 N = q * 2 ^ s \<or>
         (round_to_53 N = (q + 1) * 2 ^ s \<and> 2 ^ (s - 1) \<le> r)"
    using round_to_53_cases[of N] big unfolding s_def q_def r_def by simp
  then show ?thesis
  proof
    assume e: "round_to_53 N = q * 2 ^ s"
    have "q * 2 ^ s \<le> N" using N_eq by simp
    then show ?thesis using e low_q hi by simp
  next
    assume e: "round_to_53 N = (q + 1) * 2 ^ s \<and> 2 ^ (s - 1) \<le> r"
    then have "(q + 1) * 2 ^ s \<le> N + 2 ^ (s - 1)"
      using N_eq two_s by (simp add: algebra_simps)
    moreover have "K * 2 ^ p \<le> (q + 1) * 2 ^ s" using low_q by (simp add: algebra_simps)
    ultimately show ?thesis using e hi s54 by simp
  qed
qed

lemma pct_count_floor:
  assumes n: "n < 2 ^ 52"
  shows "pct_count n = int (n div 10)"
proof -
  define M :: nat where "M = 3602879701896397"
  define P :: nat where "P = 2 ^ 55"
  define K where "K = n div 10"
  define N where "N = n * M"
  have M10: "10 * M = P + 2" by (simp add: M_def P_def)
  have n53: "n < 2 ^ 53" using n by (rule less_trans) simp
  have fl: "round_to_53 n = n" using n53 by (rule round_to_53_small)
  have n_lo: "10 * K \<le> n" and n_hi: "n \<le> 10 * K + 9" unfolding K_def by presburger+
  have "10 * N = n * (10 * M)" by (simp add: N_def)
  also have "\<dots> = n * (P + 2)" by (simp only: M10)
  finally have tenN: "10 * N = n * P + 2 * n" by (simp add: algebra_simps)
  have "10 * (K * P) \<le> 10 * N"
    unfolding tenN using n_lo by (simp add: mult_le_mono1 trans_le_add1 flip: mult.assoc)
  then have lo: "K * P \<le> N" by simp
  have nP: "n * P \<le> (10 * K + 9) * P" using n_hi by (rule mult_le_mono1)
  have gap: "2 * n + 10 * 2 ^ 51 < P" using n by (simp add: P_def)
  have "10 * N + 10 * 2 ^ 51 < 10 * ((K + 1) * P)"
    unfolding tenN using nP gap by (simp add: algebra_simps)
  then have hi51: "N + 2 ^ 51 < (K + 1) * P" by simp
  have "M < 2 ^ 53" by (simp add: M_def)
  then have "n * M < 2 ^ 52 * 2 ^ 53" using n by (intro mult_strict_mono) simp_all
  then have "N < 2 ^ 105" by (simp add: N_def)
  then have b105: "bit_length N \<le> 105" by (rule bit_length_le)
  have R: "K * P \<le> round_to_53 N \<and> round_to_53 N < (K + 1) * P"
  proof (cases "bit_length N \<le> 53")
    case True
    then have "round_to_53 N = N" by (simp add: round_to_53_def)
    then show ?thesis using lo hi51 by simp
  next
    case False
    then have big: "53 < bit_length N" by simp
    have sp: "bit_length N - 53 \<le> 55" using b105 by simp
    have "(2::nat) ^ (bit_length N - 54) \<le> 2 ^ 51"
      using b105 by (intro power_increasing) simp_all
    then have hi: "N + 2 ^ (bit_length N - 54) < (K + 1) * P"
      using hi51 by linarith
    show ?thesis
      using round_to_53_bounds[OF big sp, of K] lo hi unfolding P_def by blast
  qed
  then have "round_to_53 N div P = K"
    by (intro div_nat_eqI) (simp_all add: mult.commute)
  then show ?thesis
    by (simp add: pct_count_def py_int_def fmul_def float_of_len_def PCT_SAMPLES_def fl
        M_def K_def N_def P_def)
qed

text \<open>Where the binary64 product first leaves the exact tenth.\<close>

lemma bit_length_eq: "2 ^ j \<le> N \<Longrightarrow> N < 2 ^ Suc j \<Longrightarrow> bit_length N = Suc j"
proof (induction j arbitrary: N)
  case 0
  then have "N = 1" by simp
  then show ?case by (simp add: bit_length.simps [of "Suc 0"] bit_length.simps [of 0])
next
  case (Suc j)
  have "2 ^ j \<le> N div 2" using Suc.prems(1) by simp
  moreover have "N div 2 < 2 ^ Suc j" using Suc.prems(2) by simp
  ultimately have "bit_length (N div 2) = Suc j" by (rule Suc.IH)
  moreover have "(0::nat) < 2 ^ Suc j" by simp
  then have "N \<noteq> 0" using Suc.prems(1) by linarith
  ultimately show ?case by (simp add: bit_length.simps [of N])
qed

lemma bit_length_boundary: "bit_length 24338891524382023874215099236353 = 105"
proof -
  have "bit_length 24338891524382023874215099236353 = Suc 104"
    by (rule bit_length_eq) simp_all
  then show ?thesis by simp
qed

lemma pct_count_boundary:
  "pct_count 6755399441055749 = 675539944105575 \<and> (6755399441055749 :: nat) div 10 = 675539944105574"
proof -
  have "(6755399441055749 :: nat) < 2 ^ 53" by simp
  then have f: "round_to_53 6755399441055749 = 6755399441055749"
    by (rule round_to_53_small)
  have r: "round_to_53 24338891524382023874215099236353 = 5404319552844600 * 2 ^ 52"
    unfolding round_to_53_def bit_length_boundary Let_def by simp
  show ?thesis
    unfolding pct_count_def fmul_def float_of_len_def PCT_SAMPLES_def py_int_def
    by (simp add: f r)
qed

lemma pct_count_nonneg: "0 \<le> pct_count n"
  by (simp add: pct_count_def py_int_def)

lemma subsample_data:
  "data (subsample ds) = take (nat (pct_count (length (data ds)))) (data ds)"
  using pct_count_nonneg [of "length (data ds)"] by (simp add: subsample_def py_slice_to_def)

lemma subsample_data_tenth:
  "length (data ds) < 2 ^ 52 \<Longrightarrow> data (subsample ds) = take (length (data ds) div 10) (data ds)"
  by (simp add: subsample_data pct_count_floor)

text \<open>
  Claim C3. The subsampling cell replaces the data list of the train, the validation
  and the test dataset by its prefix of length \<^verbatim>\<open>int(len(data) * PCT_SAMPLES)\<close>: the
  elements kept are the first ones, in their order, and nothing else. The product is a
  binary64 product; for every list of fewer than \<open>2 ^ 52\<close> elements the length is
  \<open>\<lfloor>n / 10\<rfloor>\<close>. (From \<open>6755399441055749\<close> elements on, the rounded product can
  reach the next integer.)
\<close>

theorem subsample_cell_prefix:
  "(data (train_dataset (subsample_cell dm)) =
      take (nat (pct_count (length (data (train_dataset dm))))) (data (train_dataset dm))
    \<and> data (val_dataset (subsample_cell dm)) =
      take (nat (pct_count (length (data (val_dataset dm))))) (data (val_dataset dm))
    \<and> data (test_dataset (subsample_cell dm)) =
      take (nat (pct_count (length (data (test_dataset dm))))) (data (test_dataset dm)))
   \<and> (length (data (train_dataset dm)) < 2 ^ 52 \<longrightarrow>
        data (train_dataset (subsample_cell dm)) =
          take (length (data (train_dataset dm)) div 10) (data (train_dataset dm)))
   \<and> (length (data (val_dataset dm)) < 2 ^ 52 \<longrightarrow>
        data (val_dataset (subsample_cell dm)) =
          take (length (data (val_dataset dm)) div 10) (data (val_dataset dm)))
   \<and> (length (data (test_dataset dm)) < 2 ^ 52 \<longrightarrow>
        data (test_dataset (subsample_cell dm)) =
          take (length (data (test_dataset dm)) div 10) (data (test_dataset dm)))"
proof -
  have tr: "train_dataset (subsample_cell dm) = subsample (train_dataset dm)"
    by (simp add: subsample_cell_def)
  have va: "val_dataset (subsample_cell dm) = subsample (val_dataset dm)"
    by (simp add: subsample_cell_def)
  have te: "test_dataset (subsample_cell dm) = subsample (test_dataset dm)"
    by (simp add: subsample_cell_def)
  show ?thesis
    unfolding tr va te using subsample_data subsample_data_tenth by blast
qed

theorem subsample_cell_prefix_witness:
  "length (data (train_dataset example_dm)) < 2 ^ 52
   \<and> length (data (val_dataset example_dm)) < 2 ^ 52
   \<and> length (data (test_dataset example_dm)) < 2 ^ 52
   \<and> data (train_dataset (subsample_cell example_dm)) = [100, 101]
   \<and> data (val_dataset (subsample_cell example_dm)) = [200]
   \<and> data (test_dataset (subsample_cell example_dm)) = [300]"
proof -
  have len: "length (data (train_dataset example_dm)) < 2 ^ 52"
    "length (data (val_dataset example_dm)) < 2 ^ 52"
    "length (data (test_dataset example_dm)) < 2 ^ 52"
    by (simp_all add: example_dm_def)
  have "data (train_dataset (subsample_cell example_dm)) =
          take (length (data (train_dataset example_dm)) div 10) (data (train_dataset example_dm))"
    and "data (val_dataset (subsample_cell example_dm)) =
          take (length (data (val_dataset example_dm)) div 10) (data (val_dataset example_dm))"
    and "data (test_dataset (subsample_cell example_dm)) =
          take (length (data (test_dataset example_dm)) div 10) (data (test_dataset example_dm))"
    using subsample_cell_prefix [of example_dm] len by blast+
  then show ?thesis
    using len by (simp add: example_dm_def)
qed

section \<open>The inference helper\<close>

text \<open>Every path through \<open>infer\<close>, with the calls it makes and the state it leaves.\<close>

lemma infer_unfold:
  "infer L dev batch s =
    (case raises L (TensorTo dev (batch_image batch)) of
       Some e \<Rightarrow> (Inl e, s\<lparr>trace := trace s @ [(TensorTo dev (batch_image batch), Raised e)]\<rparr>)
     | None \<Rightarrow>
    (case model_transform L (channels_to 2 (batch_image batch)) of
       Inl e \<Rightarrow> (Inl e, s\<lparr>trace := trace s @
          [(TensorTo dev (batch_image batch), Returned),
           (Transform (channels_to 2 (batch_image batch)), Raised e)]\<rparr>)
     | Inr pre \<Rightarrow>
    (case model_transform L (channels_from 2 (batch_image batch)) of
       Inl e \<Rightarrow> (Inl e, s\<lparr>trace := trace s @
          [(TensorTo dev (batch_image batch), Returned),
           (Transform (channels_to 2 (batch_image batch)), Returned),
           (Transform (channels_from 2 (batch_image batch)), Raised e)]\<rparr>)
     | Inr post \<Rightarrow>
    (case rn_forward L False (rn_model s) pre of
       (Inl e, m1) \<Rightarrow> (Inl e, s\<lparr>trace := trace s @
          [(TensorTo dev (batch_image batch), Returned),
           (Transform (channels_to 2 (batch_image batch)), Returned),
           (Transform (channels_from 2 (batch_image batch)), Returned),
           (Forward False pre, Raised e)], rn_model := m1\<rparr>)
     | (Inr a, m1) \<Rightarrow>
    (case rn_forward L False m1 post of
       (Inl e, m2) \<Rightarrow> (Inl e, s\<lparr>trace := trace s @
          [(TensorTo dev (batch_image batch), Returned),
           (Transform (channels_to 2 (batch_image batch)), Returned),
           (Transform (channels_from 2 (batch_image batch)), Returned),
           (Forward False pre, Returned), (Forward False post, Raised e)], rn_model := m2\<rparr>)
     | (Inr b, m2) \<Rightarrow>
    (case torch_concat a b of
       Inl e \<Rightarrow> (Inl e, s\<lparr>trace := trace s @
          [(TensorTo dev (batch_image batch), Returned),
           (Transform (channels_to 2 (batch_image batch)), Returned),
           (Transform (channels_from 2 (batch_image batch)), Returned),
           (Forward False pre, Returned), (Forward False post, Returned),
           (TorchConcat a b, Raised e)], rn_model := m2\<rparr>)
     | Inr c \<Rightarrow>
    (case raises L (ToNumpy c) of
       Some e \<Rightarrow> (Inl e, s\<lparr>trace := trace s @
          [(TensorTo dev (batch_image batch), Returned),
           (Transform (channels_to 2 (batch_image batch)), Returned),
           (Transform (channels_from 2 (batch_image batch)), Returned),
           (Forward False pre, Returned), (Forward False post, Returned),
           (TorchConcat a b, Returned), (ToNumpy c, Raised e)], rn_model := m2\<rparr>)
     | None \<Rightarrow> (Inr (c, batch_label batch), s\<lparr>trace := trace s @
          [(TensorTo dev (batch_image batch), Returned),
           (Transform (channels_to 2 (batch_image batch)), Returned),
           (Transform (channels_from 2 (batch_image batch)), Returned),
           (Forward False pre, Returned), (Forward False post, Returned),
           (TorchConcat a b, Returned), (ToNumpy c, Returned)], rn_model := m2\<rparr>))))))))"
  by (simp add: infer_def seq_def call_def call_void_def no_grad_def forward_def ret_def
      outcome_of_def Let_def split: option.splits sum.splits prod.splits)


text \<open>The helper on a batch of the example library.\<close>

lemma infer_example:
  "infer (example_lib dm) dev (example_batch d) s =
     (Inr ([[d, d + 1, d + 2, d + 3]], [int (d mod 2)]),
      s\<lparr>trace := trace s @
          [(TensorTo dev [[[[d]], [[d + 1]], [[d + 2]], [[d + 3]]]], Returned),
           (Transform [[[[d]], [[d + 1]]]], Returned),
           (Transform [[[[d + 2]], [[d + 3]]]], Returned),
           (Forward False [[[[d]], [[d + 1]]]], Returned),
           (Forward False [[[[d + 2]], [[d + 3]]]], Returned),
           (TorchConcat [[d, d + 1]] [[d + 2, d + 3]], Returned),
           (ToNumpy [[d, d + 1, d + 2, d + 3]], Returned)],
         rn_model := (if training (rn_model s)
            then (rn_model s)\<lparr>params := Suc (Suc (params (rn_model s)))\<rparr>
            else rn_model s)\<rparr>)"
  by (simp add: infer_def seq_def call_def call_void_def no_grad_def forward_def ret_def
      outcome_of_def torch_concat_def channels_to_def channels_from_def
      example_lib_def example_batch_def Let_def
      cong: prod.case_cong_weak sum.case_cong_weak option.case_cong_weak)

text \<open>
  Claim C1. On a batch of four-channel images, \<open>infer\<close> returns a pair exactly when
  the library calls it makes return, and then the pair is this one: the input
  transform is applied to channels 0-1 (the pre-event image) and to channels 2-3 (the
  post-event image) separately, each transformed half goes through the feature
  extractor with gradient mode off, the two embedding matrices are joined along the
  feature axis, and the label is the batch's label as it came.
\<close>

theorem infer_embedding:
  assumes "four_channel (batch_image batch)"
  shows "fst (infer L dev batch s) = Inr (embs, labels) \<longleftrightarrow>
     (\<exists>pre post a b m1 m2.
        raises L (TensorTo dev (batch_image batch)) = None \<and>
        model_transform L (pre_event (batch_image batch)) = Inr pre \<and>
        model_transform L (post_event (batch_image batch)) = Inr post \<and>
        rn_forward L False (rn_model s) pre = (Inr a, m1) \<and>
        rn_forward L False m1 post = (Inr b, m2) \<and>
        length a = length b \<and>
        embs = map2 (@) a b \<and>
        raises L (ToNumpy embs) = None \<and>
        labels = batch_label batch)"
  unfolding infer_unfold channels_pre_event [OF assms] channels_post_event [OF assms]
  by (auto simp: torch_concat_def split: option.splits sum.splits prod.splits if_splits)


theorem infer_embedding_witness:
  "four_channel (batch_image (example_batch 100))
   \<and> fst (infer (example_lib example_dm) Cpu (example_batch 100) start)
       = Inr ([[100, 101, 102, 103]], batch_label (example_batch 100))"
proof -
  have h: "four_channel (batch_image (example_batch 100))"
    by (simp add: four_channel_def example_batch_def)
  have "fst (infer (example_lib example_dm) Cpu (example_batch 100) start)
       = Inr ([[100, 101, 102, 103]], batch_label (example_batch 100))"
    unfolding infer_embedding [OF h]
    by (simp add: example_lib_def example_batch_def pre_event_def post_event_def start_def)
  with h show ?thesis by simp
qed

section \<open>Sequencing laws\<close>

lemma seq_ret_left: "seq (ret x) f = f x"
  by (rule ext) (simp add: seq_def ret_def)

lemma seq_raise_left: "seq (raise e) f = raise e"
  by (rule ext) (simp add: seq_def raise_def)

lemma seq_assoc: "seq (seq m f) g = seq m (\<lambda>x. seq (f x) g)"
  by (rule ext) (simp add: seq_def split: prod.splits sum.splits)

lemma seq_Inr: "m s = (Inr x, s') \<Longrightarrow> seq m f s = f x s'"
  by (simp add: seq_def)

lemma seq_Inl: "m s = (Inl e, s') \<Longrightarrow> seq m f s = (Inl e, s')"
  by (simp add: seq_def)

lemma seq_returns:
  "seq m f s = (Inr y, s') \<longleftrightarrow> (\<exists>x s1. m s = (Inr x, s1) \<and> f x s1 = (Inr y, s'))"
  by (auto simp: seq_def split: prod.splits sum.splits)

lemma ret_returns: "ret x s = (r, s') \<longleftrightarrow> r = Inr x \<and> s' = s"
  by (auto simp: ret_def)

section \<open>Dictionaries\<close>

lemma dict_get_set: "dict_get (dict_set d k v) k' = (if k' = k then Some v else dict_get d k')"
  by (induction d k v rule: dict_set.induct) auto

lemma dict_get_None: "dict_get d k = None \<longleftrightarrow> k \<notin> set (keys d)"
  by (induction d k rule: dict_get.induct) (auto simp: keys_def)

lemma keys_dict_set:
  "keys (dict_set d k v) = (if k \<in> set (keys d) then keys d else keys d @ [k])"
  by (induction d k v rule: dict_set.induct) (auto simp: keys_def)

lemma dd_list_append:
  "dd_list (dd_append d k v) k' = (if k' = k then dd_list d k @ [v] else dd_list d k')"
  by (simp add: dd_list_def dd_append_def dict_get_set)

lemma keys_dd_append:
  "keys (dd_append d k v) = (if k \<in> set (keys d) then keys d else keys d @ [k])"
  by (simp add: dd_append_def keys_dict_set)

lemma dict_set_fresh: "k \<notin> set (keys d) \<Longrightarrow> dict_set d k v = d @ [(k, v)]"
  by (induction d k v rule: dict_set.induct) (auto simp: keys_def)

lemma dict_set_last: "k \<notin> set (keys d) \<Longrightarrow> dict_set (d @ [(k, v)]) k w = d @ [(k, w)]"
  by (induction d) (auto simp: keys_def)

lemma dd_append_fresh: "k \<notin> set (keys d) \<Longrightarrow> dd_append d k v = d @ [(k, [v])]"
  by (simp add: dd_append_def dict_set_fresh) (simp add: dict_get_None[symmetric])

lemma dict_get_last: "k \<notin> set (keys d) \<Longrightarrow> dict_get (d @ [(k, v)]) k = Some v"
  by (induction d) (auto simp: keys_def)

lemma dd_append_last:
  "k \<notin> set (keys d) \<Longrightarrow> dd_append (d @ [(k, vs)]) k v = d @ [(k, vs @ [v])]"
  by (simp add: dd_append_def dict_get_last dict_set_last)

text \<open>Appending a run of values under a key not yet present.\<close>

lemma fold_dd_append_last:
  "k \<notin> set (keys d) \<Longrightarrow>
     fold (\<lambda>v d'. dd_append d' k v) vs (d @ [(k, ws)]) = d @ [(k, ws @ vs)]"
  by (induction vs arbitrary: ws) (simp_all add: dd_append_last)

lemma fold_dd_append_fresh:
  "k \<notin> set (keys d) \<Longrightarrow>
     fold (\<lambda>v d'. dd_append d' k v) vs d = d @ split_dict [(k, vs)]"
proof (cases vs)
  case Nil
  then show ?thesis by (simp add: split_dict_def)
next
  case (Cons v vs')
  assume "k \<notin> set (keys d)"
  then show ?thesis
    using Cons by (simp add: dd_append_fresh fold_dd_append_last split_dict_def)
qed

lemma fold_append_pair:
  "fold (append_pair k) ps acc =
     (fold (\<lambda>v d'. dd_append d' k v) (map fst ps) (fst acc),
      fold (\<lambda>v d'. dd_append d' k v) (map snd ps) (snd acc))"
  by (induction ps arbitrary: acc) (simp_all add: append_pair_def)

lemma fold_append_batch:
  "fold (append_batch k) rs acc = fold (append_pair k) (samples rs) acc"
  by (induction rs arbitrary: acc) (simp_all add: samples_def append_batch_def)

lemma extract_batches_infer_all:
  "extract_batches L dev k bs acc =
     seq (infer_all L dev bs) (\<lambda>rs. ret (fold (append_batch k) rs acc))"
  by (induction bs arbitrary: acc) (simp_all add: seq_ret_left seq_assoc)

lemma split_dict_append: "split_dict (xs @ ys) = split_dict xs @ split_dict ys"
  by (simp add: split_dict_def)

lemma keys_split_dict_single: "set (keys (split_dict [(k, vs)])) \<subseteq> {k}"
  by (simp add: split_dict_def keys_def)

lemma accumulated:
  "fold (append_batch ''test'') rs_test (fold (append_batch ''train'') rs_train ([], [])) =
     (split_dict [(''train'', map fst (samples rs_train)), (''test'', map fst (samples rs_test))],
      split_dict [(''train'', map snd (samples rs_train)), (''test'', map snd (samples rs_test))])"
proof -
  have fresh: "\<And>vs::'v list. ''test'' \<notin> set (keys (split_dict [(''train'', vs)]))"
    using keys_split_dict_single by fastforce
  have empty: "''train'' \<notin> set (keys ([] :: 'w list pydict))" for dummy :: 'w
    by (simp add: keys_def)
  have two: "\<And>(xs::'v list) ys. split_dict [(''train'', xs)] @ split_dict [(''test'', ys)] =
        split_dict [(''train'', xs), (''test'', ys)]"
    by (simp add: split_dict_def)
  show ?thesis
    by (simp add: fold_append_batch fold_append_pair fold_dd_append_fresh [OF fresh]
        fold_dd_append_fresh [where d = "[]", simplified keys_def, simplified] two)
qed

lemma extraction_cell_eq:
  "extraction_cell L dev dm =
     seq (infer_splits L dev dm) (\<lambda>rs.
     seq (stack_items (split_dict [(''train'', map fst (samples (fst rs))),
                                   (''test'', map fst (samples (snd rs)))])) (\<lambda>embeddings.
     seq (array_items L (split_dict [(''train'', map snd (samples (fst rs))),
                                     (''test'', map snd (samples (snd rs)))])) (\<lambda>labels.
     ret (embeddings, labels))))"
  by (simp add: extraction_cell_def infer_splits_def extract_loader_def
      extract_batches_infer_all seq_assoc seq_ret_left accumulated)

lemma np_stack_Inr: "np_stack v = Inr m \<Longrightarrow> m = v"
  by (auto simp: np_stack_def split: list.splits if_splits)

lemma call_returns:
  "call c r s = (Inr x, s') \<longleftrightarrow> r = Inr x \<and> s' = s\<lparr>trace := trace s @ [(c, Returned)]\<rparr>"
  by (auto simp: call_def outcome_of_def split: sum.splits)

lemma stack_items_returns: "stack_items d s = (Inr E, s') \<Longrightarrow> E = d"
proof (induction d arbitrary: s E s')
  case Nil
  then show ?case by (simp add: ret_def)
next
  case (Cons kv d)
  obtain k v where kv: "kv = (k, v)" by (cases kv)
  from Cons.prems obtain m s1 rest s2 where
    m: "call (NpStack k) (np_stack v) s = (Inr m, s1)" and
    rest: "stack_items d s1 = (Inr rest, s2)" and E: "E = (k, m) # rest"
    unfolding kv by (auto simp: seq_returns ret_returns)
  from m have "m = v" by (simp add: call_returns np_stack_Inr)
  moreover from rest have "rest = d" by (rule Cons.IH)
  ultimately show ?case using E kv by simp
qed

lemma array_items_returns: "array_items L d s = (Inr E, s') \<Longrightarrow> E = d"
proof (induction d arbitrary: s E s')
  case Nil
  then show ?case by (simp add: ret_def)
next
  case (Cons kv d)
  obtain k v where kv: "kv = (k, v)" by (cases kv)
  from Cons.prems obtain s1 rest s2 where
    rest: "array_items L d s1 = (Inr rest, s2)" and E: "E = (k, v) # rest"
    unfolding kv by (auto simp: seq_returns ret_returns)
  from rest have "rest = d" by (rule Cons.IH)
  then show ?case using E kv by simp
qed

lemma samples_rows_match:
  "rows_match rs \<Longrightarrow>
     map fst (samples rs) = concat (map fst rs) \<and> map snd (samples rs) = concat (map snd rs)"
  by (induction rs) (simp_all add: samples_def rows_match_def)


section \<open>Runs of the example library\<close>

lemma example_lib_fields:
  "raises (example_lib dm) = (\<lambda>c. None)"
  "new_datamodule (example_lib dm) = (\<lambda>b w. Inr dm)"
  "dm_setup (example_lib dm) = (\<lambda>stage d. Inr d)"
  "getitem (example_lib dm) = (\<lambda>ds i. Inr ([], 0))"
  "cuda_is_available (example_lib dm) = Inr False"
  "resnet50 (example_lib dm) = Inr \<lparr>training = True, params = 0\<rparr>"
  "train_dataloader (example_lib dm) = (\<lambda>d. Inr (example_loader (train_dataset d)))"
  "test_dataloader (example_lib dm) = (\<lambda>d. Inr (example_loader (test_dataset d)))"
  "new_random_forest (example_lib dm) = Inr 0"
  "clf_fit (example_lib dm) = (\<lambda>c x y. Inr (Suc c))"
  "clf_predict (example_lib dm) = (\<lambda>c x. Inr (map (\<lambda>row. 1) x))"
  "classification_report (example_lib dm) = (\<lambda>y p. Inr ''report'')"
  "transform_writes (example_lib dm) = (\<lambda>x. x)"
  by (simp_all add: example_lib_def)

lemma empty_train_lib_fields:
  "raises empty_train_lib = (\<lambda>c. None)"
  "new_datamodule empty_train_lib = (\<lambda>b w. Inr example_dm)"
  "dm_setup empty_train_lib = (\<lambda>stage d. Inr d)"
  "getitem empty_train_lib = (\<lambda>ds i. Inr ([], 0))"
  "cuda_is_available empty_train_lib = Inr False"
  "resnet50 empty_train_lib = Inr \<lparr>training = True, params = 0\<rparr>"
  "train_dataloader empty_train_lib = (\<lambda>d. Inr \<lparr>batches = [], stops = None\<rparr>)"
  "test_dataloader empty_train_lib = (\<lambda>d. Inr (example_loader (test_dataset d)))"
  "new_random_forest empty_train_lib = Inr 0"
  by (simp_all add: empty_train_lib_def example_lib_def)

lemma trainer_failing_lib_fields:
  "raises trainer_failing_lib = (\<lambda>c. if c = TrainerFit then Some (External ''fit'') else None)"
  "new_datamodule trainer_failing_lib = (\<lambda>b w. Inr example_dm)"
  "dm_setup trainer_failing_lib = (\<lambda>stage d. Inr d)"
  "getitem trainer_failing_lib = (\<lambda>ds i. Inr ([], 0))"
  "cuda_is_available trainer_failing_lib = Inr False"
  "resnet50 trainer_failing_lib = Inr \<lparr>training = True, params = 0\<rparr>"
  "train_dataloader trainer_failing_lib = (\<lambda>d. Inr (example_loader (train_dataset d)))"
  "test_dataloader trainer_failing_lib = (\<lambda>d. Inr (example_loader (test_dataset d)))"
  "new_random_forest trainer_failing_lib = Inr 0"
  "clf_fit trainer_failing_lib = (\<lambda>c x y. Inr (Suc c))"
  "clf_predict trainer_failing_lib = (\<lambda>c x. Inr (map (\<lambda>row. 1) x))"
  "classification_report trainer_failing_lib = (\<lambda>y p. Inr ''report'')"
  by (simp_all add: trainer_failing_lib_def example_lib_def)

text \<open>
  \<open>infer\<close> reads four fields of the library; with the example's values in them it
  runs as in the example library.
\<close>

lemma infer_like_example:
  assumes "\<And>x. raises L (TensorTo dev x) = None" and "\<And>x. raises L (ToNumpy x) = None"
    and "model_transform L = (\<lambda>x. Inr x)"
    and "rn_forward L = (\<lambda>g m x. (Inr (map (\<lambda>im. concat (concat im)) x),
                              if g \<or> training m then m\<lparr>params := Suc (params m)\<rparr> else m))"
  shows "infer L dev (example_batch d) s =
     (Inr ([[d, d + 1, d + 2, d + 3]], [int (d mod 2)]),
      s\<lparr>trace := trace s @
          [(TensorTo dev [[[[d]], [[d + 1]], [[d + 2]], [[d + 3]]]], Returned),
           (Transform [[[[d]], [[d + 1]]]], Returned),
           (Transform [[[[d + 2]], [[d + 3]]]], Returned),
           (Forward False [[[[d]], [[d + 1]]]], Returned),
           (Forward False [[[[d + 2]], [[d + 3]]]], Returned),
           (TorchConcat [[d, d + 1]] [[d + 2, d + 3]], Returned),
           (ToNumpy [[d, d + 1, d + 2, d + 3]], Returned)],
         rn_model := (if training (rn_model s)
            then (rn_model s)\<lparr>params := Suc (Suc (params (rn_model s)))\<rparr>
            else rn_model s)\<rparr>)"
  by (simp add: infer_def seq_def call_def call_void_def no_grad_def forward_def ret_def
      outcome_of_def torch_concat_def channels_to_def channels_from_def
      assms example_batch_def Let_def
      cong: prod.case_cong_weak sum.case_cong_weak option.case_cong_weak)

lemma infer_empty_train:
  "infer empty_train_lib dev (example_batch d) s =
     (Inr ([[d, d + 1, d + 2, d + 3]], [int (d mod 2)]),
      s\<lparr>trace := trace s @
          [(TensorTo dev [[[[d]], [[d + 1]], [[d + 2]], [[d + 3]]]], Returned),
           (Transform [[[[d]], [[d + 1]]]], Returned),
           (Transform [[[[d + 2]], [[d + 3]]]], Returned),
           (Forward False [[[[d]], [[d + 1]]]], Returned),
           (Forward False [[[[d + 2]], [[d + 3]]]], Returned),
           (TorchConcat [[d, d + 1]] [[d + 2, d + 3]], Returned),
           (ToNumpy [[d, d + 1, d + 2, d + 3]], Returned)],
         rn_model := (if training (rn_model s)
            then (rn_model s)\<lparr>params := Suc (Suc (params (rn_model s)))\<rparr>
            else rn_model s)\<rparr>)"
  by (rule infer_like_example) (simp_all add: empty_train_lib_def example_lib_def)

lemma infer_trainer_failing:
  "infer trainer_failing_lib dev (example_batch d) s =
     (Inr ([[d, d + 1, d + 2, d + 3]], [int (d mod 2)]),
      s\<lparr>trace := trace s @
          [(TensorTo dev [[[[d]], [[d + 1]], [[d + 2]], [[d + 3]]]], Returned),
           (Transform [[[[d]], [[d + 1]]]], Returned),
           (Transform [[[[d + 2]], [[d + 3]]]], Returned),
           (Forward False [[[[d]], [[d + 1]]]], Returned),
           (Forward False [[[[d + 2]], [[d + 3]]]], Returned),
           (TorchConcat [[d, d + 1]] [[d + 2, d + 3]], Returned),
           (ToNumpy [[d, d + 1, d + 2, d + 3]], Returned)],
         rn_model := (if training (rn_model s)
            then (rn_model s)\<lparr>params := Suc (Suc (params (rn_model s)))\<rparr>
            else rn_model s)\<rparr>)"
  by (rule infer_like_example) (simp_all add: trainer_failing_lib_def example_lib_def)

lemmas run_simps =
  notebook_def cells_to_extraction_def cells_after_extraction_def
  datamodule_cell_def prepare_cell_def plot_cell_def device_cell_def model_cell_def
  set_rn_model_def extraction_cell_def extract_loader_def classifier_cell_def trainer_cells_def
  infer_splits_def
  seq_def call_def call_void_def ret_def raise_def outcome_of_def np_stack_def subscript_def
  append_batch_def append_pair_def dd_append_def example_loader_def Let_def

lemmas weak_congs = prod.case_cong_weak sum.case_cong_weak option.case_cong_weak

lemma subsample_example:
  "subsample_cell example_dm =
     \<lparr>train_dataset = \<lparr>data = [100, 101]\<rparr>, val_dataset = \<lparr>data = [200]\<rparr>,
      test_dataset = \<lparr>data = [300]\<rparr>\<rparr>"
  by (simp add: subsample_cell_def subsample_def pct_count_floor py_slice_to_def example_dm_def)

lemma extraction_example:
  "fst (extraction_cell (example_lib example_dm) Cpu (subsample_cell example_dm) eval_start) =
     Inr ([(''train'', [[100, 101, 102, 103], [101, 102, 103, 104]]),
           (''test'', [[300, 301, 302, 303]])],
          [(''train'', [0, 1]), (''test'', [0])])"
  by (simp add: run_simps infer_example example_lib_fields subsample_example eval_start_def
      cong: weak_congs)

lemma infer_splits_example:
  "fst (infer_splits (example_lib example_dm) Cpu (subsample_cell example_dm) eval_start) =
     Inr ([([[100, 101, 102, 103]], [0]), ([[101, 102, 103, 104]], [1])],
          [([[300, 301, 302, 303]], [0])])"
  by (simp add: run_simps infer_example example_lib_fields subsample_example eval_start_def
      cong: weak_congs)

lemma extraction_empty_train:
  "fst (extraction_cell empty_train_lib Cpu (subsample_cell example_dm) eval_start) =
     Inr ([(''test'', [[300, 301, 302, 303]])], [(''test'', [0])])"
  by (simp add: run_simps infer_empty_train empty_train_lib_fields subsample_example
      eval_start_def cong: weak_congs)

section \<open>The dictionaries the extraction cell builds\<close>

lemma fst_seq_returns:
  "fst (seq m f s) = Inr y \<longleftrightarrow> (\<exists>x s1. m s = (Inr x, s1) \<and> fst (f x s1) = Inr y)"
  by (auto simp: seq_def split: prod.splits sum.splits)

lemma extraction_result:
  assumes "fst (extraction_cell L dev dm s) = Inr (embeddings, labels)"
  shows "\<exists>rs_train rs_test.
      fst (infer_splits L dev dm s) = Inr (rs_train, rs_test)
    \<and> embeddings = split_dict [(''train'', map fst (samples rs_train)),
                              (''test'', map fst (samples rs_test))]
    \<and> labels = split_dict [(''train'', map snd (samples rs_train)),
                          (''test'', map snd (samples rs_test))]
    \<and> keys embeddings =
        filter (\<lambda>k. (if k = ''train'' then samples rs_train else samples rs_test) \<noteq> [])
          [''train'', ''test'']
    \<and> keys labels = keys embeddings
    \<and> (rows_match rs_train \<longrightarrow>
          map fst (samples rs_train) = concat (map fst rs_train)
        \<and> map snd (samples rs_train) = concat (map snd rs_train))
    \<and> (rows_match rs_test \<longrightarrow>
          map fst (samples rs_test) = concat (map fst rs_test)
        \<and> map snd (samples rs_test) = concat (map snd rs_test))"
proof -
  from assms obtain rs s1 E s2 Lb s3 where
    rs: "infer_splits L dev dm s = (Inr rs, s1)" and
    E: "stack_items (split_dict [(''train'', map fst (samples (fst rs))),
                                 (''test'', map fst (samples (snd rs)))]) s1 = (Inr E, s2)" and
    Lb: "array_items L (split_dict [(''train'', map snd (samples (fst rs))),
                                    (''test'', map snd (samples (snd rs)))]) s2 = (Inr Lb, s3)" and
    res: "embeddings = E" "labels = Lb"
    unfolding extraction_cell_eq fst_seq_returns
    by (auto simp: seq_returns ret_returns ret_def)
  obtain rs_train rs_test where p: "rs = (rs_train, rs_test)" by (cases rs)
  have r: "fst (infer_splits L dev dm s) = Inr (rs_train, rs_test)"
    using rs p by simp
  have e: "embeddings = split_dict [(''train'', map fst (samples rs_train)),
                              (''test'', map fst (samples rs_test))]"
    using stack_items_returns [OF E] res p by simp
  have l: "labels = split_dict [(''train'', map snd (samples rs_train)),
                          (''test'', map snd (samples rs_test))]"
    using array_items_returns [OF Lb] res p by simp
  have k: "keys embeddings =
        filter (\<lambda>k. (if k = ''train'' then samples rs_train else samples rs_test) \<noteq> [])
          [''train'', ''test'']"
    unfolding e by (simp add: split_dict_def keys_def)
  have kl: "keys labels = keys embeddings"
    unfolding e l by (simp add: split_dict_def keys_def)
  show ?thesis
    using r e l k kl samples_rows_match by blast
qed

text \<open>
  Claim C4, as the code has it. When the extraction cell completes, \<open>infer\<close> has been
  applied to every batch of the train dataloader and then to every batch of the test
  dataloader, in the order yielded. Each dictionary has a key for exactly those
  splits, in the order train, test, for which at least one (embedding, label) pair was
  appended; under such a key \<^verbatim>\<open>embeddings\<close> holds the embeddings of the pairs in
  encounter order, and \<^verbatim>\<open>labels\<close> holds their labels in the same order. When every
  result of \<open>infer\<close> has one embedding row per label, these are all the embeddings
  and all the labels.
\<close>

theorem extraction_dicts:
  assumes "fst (extraction_cell L dev dm s) = Inr (embeddings, labels)"
  shows "\<exists>rs_train rs_test.
      fst (infer_splits L dev dm s) = Inr (rs_train, rs_test)
    \<and> embeddings = split_dict [(''train'', map fst (samples rs_train)),
                              (''test'', map fst (samples rs_test))]
    \<and> labels = split_dict [(''train'', map snd (samples rs_train)),
                          (''test'', map snd (samples rs_test))]
    \<and> keys embeddings =
        filter (\<lambda>k. (if k = ''train'' then samples rs_train else samples rs_test) \<noteq> [])
          [''train'', ''test'']
    \<and> keys labels = keys embeddings
    \<and> (rows_match rs_train \<longrightarrow>
          map fst (samples rs_train) = concat (map fst rs_train)
        \<and> map snd (samples rs_train) = concat (map snd rs_train))
    \<and> (rows_match rs_test \<longrightarrow>
          map fst (samples rs_test) = concat (map fst rs_test)
        \<and> map snd (samples rs_test) = concat (map snd rs_test))"
  using assms by (rule extraction_result)

theorem extraction_dicts_witness:
  "fst (extraction_cell (example_lib example_dm) Cpu (subsample_cell example_dm) eval_start) =
     Inr ([(''train'', [[100, 101, 102, 103], [101, 102, 103, 104]]),
           (''test'', [[300, 301, 302, 303]])],
          [(''train'', [0, 1]), (''test'', [0])])
   \<and> rows_match [([[100, 101, 102, 103]], [0]), ([[101, 102, 103, 104 :: nat]], [1])]
   \<and> rows_match [([[300, 301, 302, 303 :: nat]], [0])]
   \<and> keys [(''train'', [[100, 101, 102, 103], [101, 102, 103, 104]]),
            (''test'', [[300, 301, 302, 303 :: nat]])] = [''train'', ''test'']
   \<and> [[100, 101, 102, 103], [101, 102, 103, 104 :: nat]] =
       concat (map fst [([[100, 101, 102, 103]], [0 :: int]), ([[101, 102, 103, 104]], [1])])"
proof -
  let ?rt = "[([[100, 101, 102, 103]], [0]), ([[101, 102, 103, 104 :: nat]], [1 :: int])]"
  let ?re = "[([[300, 301, 302, 303 :: nat]], [0 :: int])]"
  have m: "rows_match ?rt" "rows_match ?re"
    by (simp_all add: rows_match_def)
  from extraction_dicts [OF extraction_example] obtain rs_train rs_test where
    r: "fst (infer_splits (example_lib example_dm) Cpu (subsample_cell example_dm) eval_start)
          = Inr (rs_train, rs_test)" and
    k: "keys [(''train'', [[100, 101, 102, 103], [101, 102, 103, 104]]),
              (''test'', [[300, 301, 302, 303 :: nat]])] =
        filter (\<lambda>k. (if k = ''train'' then samples rs_train else samples rs_test) \<noteq> [])
          [''train'', ''test'']" and
    c: "rows_match rs_train \<longrightarrow> map fst (samples rs_train) = concat (map fst rs_train)
        \<and> map snd (samples rs_train) = concat (map snd rs_train)"
    by blast
  from r have eq: "rs_train = ?rt" "rs_test = ?re"
    unfolding infer_splits_example by simp_all
  from c m have "map fst (samples ?rt) = concat (map fst ?rt)"
    unfolding eq by blast
  moreover from k have "keys [(''train'', [[100, 101, 102, 103], [101, 102, 103, 104]]),
              (''test'', [[300, 301, 302, 303 :: nat]])] = [''train'', ''test'']"
    unfolding eq by (simp add: samples_def)
  ultimately show ?thesis
    using extraction_example m by (simp add: samples_def)
qed

text \<open>
  The claim as it was written, with both keys always present, fails when a dataloader
  yields no batch: with a train dataloader that yields none, the first loop never runs
  its body, the key \<^verbatim>\<open>'train'\<close> is never created, and both dictionaries have the key
  \<^verbatim>\<open>'test'\<close> only.
\<close>

theorem extraction_keys_counterexample:
  "fst (extraction_cell empty_train_lib Cpu (subsample_cell example_dm) eval_start) =
     Inr ([(''test'', [[300, 301, 302, 303]])], [(''test'', [0])])
   \<and> keys [(''test'', [[300, 301, 302, 303 :: nat]])] = [''test'']
   \<and> keys [(''test'', [0 :: int])] = [''test'']"
  using extraction_empty_train by (simp add: keys_def)

section \<open>Embeddings and labels stay paired\<close>

lemma counts_agree_append_pair: "counts_agree acc \<Longrightarrow> counts_agree (append_pair k p acc)"
  by (auto simp: counts_agree_def append_pair_def dd_list_append)

lemma counts_agree_fold:
  "counts_agree acc \<Longrightarrow> counts_agree (fold (append_pair k) ps acc)"
  by (induction ps arbitrary: acc) (simp_all add: counts_agree_append_pair)

lemma extract_batches_counts:
  assumes "counts_agree acc" and "fst (extract_batches L dev k bs acc s) = Inr acc'"
  shows "counts_agree acc'"
proof -
  from assms(2) obtain rs where "acc' = fold (append_batch k) rs acc"
    unfolding extract_batches_infer_all fst_seq_returns by (auto simp: ret_def)
  then show ?thesis
    using assms(1) by (simp add: fold_append_batch counts_agree_fold)
qed

lemma split_dict_dims:
  "first_dims_agree (split_dict [(''train'', map fst ps), (''test'', map fst qs)])
                    (split_dict [(''train'', map snd ps), (''test'', map snd qs)])"
  by (simp add: first_dims_agree_def split_dict_def)

text \<open>
  Claim C9. The accumulators start with equal counts (both empty); one iteration of
  the inner loop appends one embedding and one label under the same key and keeps the
  counts equal for the keys \<^verbatim>\<open>'train'\<close> and \<^verbatim>\<open>'test'\<close>; so they are equal after any
  number of batches; and the two final dictionaries have the same keys and, key by key,
  arrays of equal first dimension.
\<close>

theorem counts_agree_invariant:
  "counts_agree ([], [])
   \<and> (counts_agree acc \<longrightarrow> counts_agree (append_pair k p acc))
   \<and> (counts_agree acc \<longrightarrow> fst (extract_batches L dev k bs acc s) = Inr acc' \<longrightarrow>
        counts_agree acc')
   \<and> (fst (extraction_cell L dev dm s') = Inr (embeddings, labels) \<longrightarrow>
        first_dims_agree embeddings labels)"
proof -
  have a: "counts_agree ([], [])"
    by (simp add: counts_agree_def dd_list_def)
  have d: "first_dims_agree embeddings labels"
    if "fst (extraction_cell L dev dm s') = Inr (embeddings, labels)"
    using extraction_result [OF that] split_dict_dims by blast
  show ?thesis
    using a counts_agree_append_pair extract_batches_counts d by blast
qed

theorem counts_agree_invariant_witness:
  "counts_agree (([], []) :: nat accum)
   \<and> counts_agree (append_pair ''train'' ([1 :: nat], 0) ([], []))
   \<and> fst (extract_batches (example_lib example_dm) Cpu ''train'' [example_batch 100] ([], [])
        eval_start) = Inr ([(''train'', [[100, 101, 102, 103]])], [(''train'', [0])])
   \<and> counts_agree ([(''train'', [[100, 101, 102, 103 :: nat]])], [(''train'', [0])])
   \<and> first_dims_agree [(''train'', [[100, 101, 102, 103], [101, 102, 103, 104]]),
                        (''test'', [[300, 301, 302, 303 :: nat]])]
                       [(''train'', [0, 1]), (''test'', [0])]"
proof -
  have r: "fst (extract_batches (example_lib example_dm) Cpu ''train'' [example_batch 100] ([], [])
        eval_start) = Inr ([(''train'', [[100, 101, 102, 103]])], [(''train'', [0])])"
    by (simp add: run_simps infer_example eval_start_def cong: weak_congs)
  note inv = counts_agree_invariant [where acc = "([], [])" and k = "''train''"
      and p = "([1], 0)" and L = "example_lib example_dm" and dev = Cpu
      and bs = "[example_batch 100]" and s = eval_start
      and acc' = "([(''train'', [[100, 101, 102, 103]])], [(''train'', [0])])"
      and dm = "subsample_cell example_dm" and s' = eval_start
      and embeddings = "[(''train'', [[100, 101, 102, 103], [101, 102, 103, 104]]),
        (''test'', [[300, 301, 302, 303]])]"
      and labels = "[(''train'', [0, 1]), (''test'', [0])]"]
  show ?thesis
    using inv r extraction_example by blast
qed

section \<open>Three runs of the notebook\<close>

lemma failing_lib_fields:
  "raises failing_lib = (\<lambda>c. if c = Plot then Some (External ''plot'') else None)"
  "new_datamodule failing_lib = (\<lambda>b w. Inr example_dm)"
  "dm_setup failing_lib = (\<lambda>stage d. Inr d)"
  "getitem failing_lib = (\<lambda>ds i. Inr ([], 0))"
  by (simp_all add: failing_lib_def example_lib_def)

lemma notebook_example:
  "fst (notebook (example_lib example_dm) start) = Inr ()"
  "events_since start (snd (notebook (example_lib example_dm) start)) =
     [(PipInstall, Returned), (Imports, Returned), (TmpPath, Returned),
      (NewDataModule batch_size num_workers, Returned),
      (PrepareData, Returned), (Setup ''fit'', Returned),
      (Setup ''test'', Returned), (GetItem 0, Returned),
      (Plot, Returned), (CudaIsAvailable, Returned),
      (Resnet50, Returned), (ModuleTo Cpu, Returned),
      (ModuleEval, Returned), (TrainDataloader, Returned),
      (TensorTo Cpu [[[[100]], [[101]], [[102]], [[103]]]], Returned),
      (Transform [[[[100]], [[101]]]], Returned),
      (Transform [[[[102]], [[103]]]], Returned),
      (Forward False [[[[100]], [[101]]]], Returned),
      (Forward False [[[[102]], [[103]]]], Returned),
      (TorchConcat [[100, 101]] [[102, 103]], Returned),
      (ToNumpy [[100, 101, 102, 103]], Returned),
      (TensorTo Cpu [[[[101]], [[102]], [[103]], [[104]]]], Returned),
      (Transform [[[[101]], [[102]]]], Returned),
      (Transform [[[[103]], [[104]]]], Returned),
      (Forward False [[[[101]], [[102]]]], Returned),
      (Forward False [[[[103]], [[104]]]], Returned),
      (TorchConcat [[101, 102]] [[103, 104]], Returned),
      (ToNumpy [[101, 102, 103, 104]], Returned),
      (Iterate ''train'', Returned), (TestDataloader, Returned),
      (TensorTo Cpu [[[[300]], [[301]], [[302]], [[303]]]], Returned),
      (Transform [[[[300]], [[301]]]], Returned),
      (Transform [[[[302]], [[303]]]], Returned),
      (Forward False [[[[300]], [[301]]]], Returned),
      (Forward False [[[[302]], [[303]]]], Returned),
      (TorchConcat [[300, 301]] [[302, 303]], Returned),
      (ToNumpy [[300, 301, 302, 303]], Returned),
      (Iterate ''test'', Returned), (NpStack ''train'', Returned),
      (NpStack ''test'', Returned), (NpArray ''train'', Returned),
      (NpArray ''test'', Returned), (NewRandomForest, Returned),
      (ClfFit [[100, 101, 102, 103], [101, 102, 103, 104]] [0, 1], Returned),
      (ClfPredict [[300, 301, 302, 303]], Returned),
      (ClassificationReport [0] [1], Returned),
      (Print ''report'', Returned), (NewTask, Returned),
      (TmpPath, Returned), (NewCheckpoint, Returned),
      (NewLogger, Returned), (NewTrainer, Returned),
      (TrainerFit, Returned), (TrainerTest, Returned)]"
  by (simp_all add: run_simps infer_example example_lib_fields subsample_example start_def
      events_since_def cong: weak_congs)

lemma cells_to_extraction_example:
  "fst (cells_to_extraction (example_lib example_dm) start) =
     Inr ([(''train'', [[100, 101, 102, 103], [101, 102, 103, 104]]),
           (''test'', [[300, 301, 302, 303]])],
          [(''train'', [0, 1]), (''test'', [0])])"
  by (simp add: run_simps infer_example example_lib_fields subsample_example start_def
      cong: weak_congs)

lemma notebook_empty_train:
  "fst (notebook empty_train_lib start) = Inl (KeyError ''train'')"
  "events_since start (snd (notebook empty_train_lib start)) =
     [(PipInstall, Returned), (Imports, Returned), (TmpPath, Returned),
      (NewDataModule batch_size num_workers, Returned),
      (PrepareData, Returned), (Setup ''fit'', Returned),
      (Setup ''test'', Returned), (GetItem 0, Returned),
      (Plot, Returned), (CudaIsAvailable, Returned),
      (Resnet50, Returned), (ModuleTo Cpu, Returned),
      (ModuleEval, Returned), (TrainDataloader, Returned),
      (Iterate ''train'', Returned), (TestDataloader, Returned),
      (TensorTo Cpu [[[[300]], [[301]], [[302]], [[303]]]], Returned),
      (Transform [[[[300]], [[301]]]], Returned),
      (Transform [[[[302]], [[303]]]], Returned),
      (Forward False [[[[300]], [[301]]]], Returned),
      (Forward False [[[[302]], [[303]]]], Returned),
      (TorchConcat [[300, 301]] [[302, 303]], Returned),
      (ToNumpy [[300, 301, 302, 303]], Returned),
      (Iterate ''test'', Returned), (NpStack ''test'', Returned),
      (NpArray ''test'', Returned), (NewRandomForest, Returned)]"
  by (simp_all add: run_simps infer_empty_train empty_train_lib_fields subsample_example
      start_def events_since_def cong: weak_congs)

lemma notebook_failing:
  "fst (notebook failing_lib start) = Inl (External ''plot'')"
  "events_since start (snd (notebook failing_lib start)) =
     [(PipInstall, Returned), (Imports, Returned), (TmpPath, Returned),
      (NewDataModule batch_size num_workers, Returned),
      (PrepareData, Returned), (Setup ''fit'', Returned),
      (Setup ''test'', Returned), (GetItem 0, Returned),
      (Plot, Raised (External ''plot''))]"
  by (simp_all add: run_simps failing_lib_fields start_def events_since_def cong: weak_congs)

section \<open>Programs only append to the trace\<close>


lemma emitsD:
  assumes "emits Q m" and "m s = (r, s')"
  shows "trace s' = trace s @ events_since s s' \<and> Q (events_since s s') r"
proof -
  from assms(1) obtain ev where "trace (snd (m s)) = trace s @ ev" and "Q ev (fst (m s))"
    unfolding emits_def by blast
  then show ?thesis using assms(2) by (simp add: events_since_def)
qed

lemma emitsE:
  assumes "emits Q m" and "m s = (r, s')"
  obtains ev where "trace s' = trace s @ ev" and "events_since s s' = ev" and "Q ev r"
  using emitsD [OF assms] by blast

lemma emits_weaken: "emits Q m \<Longrightarrow> (\<And>ev r. Q ev r \<Longrightarrow> Q' ev r) \<Longrightarrow> emits Q' m"
  unfolding emits_def by blast

lemma emits_ret: "Q [] (Inr x) \<Longrightarrow> emits Q (ret x)"
  by (simp add: emits_def ret_def)

lemma emits_raise: "Q [] (Inl e) \<Longrightarrow> emits Q (raise e)"
  by (simp add: emits_def raise_def)

lemma emits_call: "Q [(c, outcome_of r)] r \<Longrightarrow> emits Q (call c r)"
  by (simp add: emits_def call_def)

lemma emits_call_void: "(\<And>r. Q [(c, outcome_of r)] r) \<Longrightarrow> emits Q (call_void L c)"
  by (simp add: call_void_def emits_call)

lemma emits_set_rn_model: "Q [] (Inr ()) \<Longrightarrow> emits Q (set_rn_model m)"
  by (simp add: emits_def set_rn_model_def)

lemma emits_forward: "(\<And>g r. Q [(Forward g x, outcome_of r)] r) \<Longrightarrow> emits Q (forward L x)"
  by (simp add: emits_def forward_def Let_def split: prod.splits)

lemma emits_no_grad: "emits Q m \<Longrightarrow> emits Q (no_grad m)"
  unfolding emits_def no_grad_def Let_def
proof
  fix s
  assume a: "\<forall>s. \<exists>ev. trace (snd (m s)) = trace s @ ev \<and> Q ev (fst (m s))"
  obtain r s' where run: "m (s\<lparr>grad_enabled := False\<rparr>) = (r, s')"
    by (cases "m (s\<lparr>grad_enabled := False\<rparr>)")
  from a obtain ev where "trace (snd (m (s\<lparr>grad_enabled := False\<rparr>))) =
      trace (s\<lparr>grad_enabled := False\<rparr>) @ ev" and "Q ev (fst (m (s\<lparr>grad_enabled := False\<rparr>)))"
    by blast
  then show "\<exists>ev. trace (snd (case m (s\<lparr>grad_enabled := False\<rparr>) of
                (r, s') \<Rightarrow> (r, s'\<lparr>grad_enabled := grad_enabled s\<rparr>))) = trace s @ ev \<and>
            Q ev (fst (case m (s\<lparr>grad_enabled := False\<rparr>) of
                (r, s') \<Rightarrow> (r, s'\<lparr>grad_enabled := grad_enabled s\<rparr>)))"
    using run by simp
qed

lemma emits_subscript:
  "(\<And>v. Q [] (Inr v)) \<Longrightarrow> Q [] (Inl (KeyError k)) \<Longrightarrow> emits Q (subscript d k)"
  by (simp add: subscript_def emits_ret emits_raise split: option.splits)

lemma emits_seq:
  assumes m: "emits Q1 m" and f: "\<And>x. emits (Q2 x) (f x)"
    and fail: "\<And>ev e. Q1 ev (Inl e) \<Longrightarrow> Q ev (Inl e)"
    and both: "\<And>ev1 x ev2 r. Q1 ev1 (Inr x) \<Longrightarrow> Q2 x ev2 r \<Longrightarrow> Q (ev1 @ ev2) r"
  shows "emits Q (seq m f)"
  unfolding emits_def
proof
  fix s
  obtain r1 s1 where run: "m s = (r1, s1)" by (cases "m s")
  from m obtain ev1 where t1: "trace s1 = trace s @ ev1" and q1: "Q1 ev1 r1"
    unfolding emits_def using run by (metis fst_conv snd_conv)
  show "\<exists>ev. trace (snd (seq m f s)) = trace s @ ev \<and> Q ev (fst (seq m f s))"
  proof (cases r1)
    case (Inl e)
    then show ?thesis using run t1 q1 fail by (auto simp: seq_def)
  next
    case (Inr x)
    from f [of x] obtain ev2 where t2: "trace (snd (f x s1)) = trace s1 @ ev2"
      and q2: "Q2 x ev2 (fst (f x s1))"
      unfolding emits_def by blast
    have "seq m f s = f x s1" using run Inr by (simp add: seq_def)
    moreover have "Q (ev1 @ ev2) (fst (f x s1))" using q1 q2 both Inr by blast
    ultimately show ?thesis using t1 t2 by auto
  qed
qed

section \<open>Exceptions propagate\<close>

lemma clean_append [simp]: "clean (xs @ ys) \<longleftrightarrow> clean xs \<and> clean ys"
  by (simp add: clean_def)

lemma clean_Nil [simp]: "clean []"
  by (simp add: clean_def)

lemma faithful_Inl_any: "faithful ev (Inl e :: error + 'x) \<Longrightarrow> faithful ev (Inl e :: error + 'y)"
  by (auto simp: faithful_def split: outcome.splits)

lemma faithful_Inr_clean: "faithful ev (Inr x) \<Longrightarrow> clean ev"
  by (auto simp: faithful_def split: outcome.splits)

lemma faithful_append: "clean ev1 \<Longrightarrow> faithful ev2 r \<Longrightarrow> faithful (ev1 @ ev2) r"
  by (auto simp: faithful_def butlast_append)

lemma faithful_single: "faithful [(c, outcome_of r)] r"
  by (cases r) (simp_all add: faithful_def outcome_of_def clean_def)

lemma faithful_seq:
  "emits faithful m \<Longrightarrow> (\<And>x. emits faithful (f x)) \<Longrightarrow> emits faithful (seq m f)"
  by (rule emits_seq [where ?Q1.0 = faithful and ?Q2.0 = "\<lambda>x. faithful"])
     (auto intro: faithful_Inl_any faithful_append dest: faithful_Inr_clean)

lemma faithful_Nil: "faithful [] r"
  by (simp add: faithful_def)

lemmas faithful_rules =
  faithful_seq emits_ret [where Q = faithful] emits_raise [where Q = faithful]
  emits_call [where Q = faithful] emits_call_void [where Q = faithful]
  emits_forward [where Q = faithful] emits_no_grad [where Q = faithful]
  emits_subscript [where Q = faithful] emits_set_rn_model [where Q = faithful]
  faithful_Nil faithful_single

lemma faithful_infer: "emits faithful (infer L dev b)"
  unfolding infer_def Let_def by (intro faithful_rules)

lemma faithful_extract_batches: "emits faithful (extract_batches L dev k bs acc)"
proof (induction bs arbitrary: acc)
  case Nil
  show ?case by (simp add: faithful_rules)
next
  case (Cons b bs)
  show ?case
    unfolding extract_batches.simps by (intro faithful_rules faithful_infer Cons.IH)
qed

lemma faithful_stack_items: "emits faithful (stack_items d)"
  by (induction d rule: stack_items.induct) (auto intro!: faithful_rules)

lemma faithful_array_items: "emits faithful (array_items L d)"
  by (induction d rule: array_items.induct) (auto intro!: faithful_rules)

lemma faithful_notebook: "emits faithful (notebook L)"
  unfolding notebook_def cells_to_extraction_def cells_after_extraction_def
    datamodule_cell_def prepare_cell_def plot_cell_def device_cell_def model_cell_def
    extraction_cell_def extract_loader_def classifier_cell_def trainer_cells_def Let_def
  by (intro faithful_rules faithful_extract_batches faithful_stack_items faithful_array_items)

section \<open>The order of the steps\<close>

lemma steps_Nil [simp]: "steps [] = []"
  by (simp add: steps_def List.map_filter_simps)

lemma steps_append [simp]: "steps (xs @ ys) = steps xs @ steps ys"
  by (simp add: steps_def List.map_filter_def)

lemma steps_single:
  "steps [(c, out)] = (case step_of c of None \<Rightarrow> [] | Some q \<Rightarrow> [q])"
  by (simp add: steps_def List.map_filter_simps split: option.splits)

lemma is_ok_simps [simp]: "is_ok (Inr x)" "\<not> is_ok (Inl e)"
  by (simp_all add: is_ok_def)

lemma is_ok_unit: "is_ok (r :: error + unit) \<longleftrightarrow> r = Inr ()"
  by (cases r) simp_all

lemma advances_Nil: "lo = hi \<Longrightarrow> advances lo hi [] r"
  by (simp add: advances_def)

lemma advances_single:
  "(case step_of c of None \<Rightarrow> hi = lo | Some q \<Rightarrow> hi = q \<and> (q = lo \<or> q = Suc lo)) \<Longrightarrow>
     advances lo hi [(c, out)] r"
  by (auto simp: advances_def steps_single split: option.splits)

lemma advances_append:
  assumes a: "advances lo mid ev1 (Inr x)" and b: "advances mid hi ev2 r"
  shows "advances lo hi (ev1 @ ev2) r"
proof -
  from a have a1: "lo \<le> mid" "sorted (lo # steps ev1)" "\<forall>p\<in>set (steps ev1). p \<le> mid"
    and a2: "set (lo # steps ev1) = {lo .. mid}"
    by (simp_all add: advances_def list_all_iff)
  from b have b1: "mid \<le> hi" "sorted (mid # steps ev2)" "\<forall>p\<in>set (steps ev2). p \<le> hi"
    and b2: "is_ok r \<longrightarrow> set (mid # steps ev2) = {mid .. hi}"
    by (simp_all add: advances_def list_all_iff)
  have s: "sorted (lo # steps ev1 @ steps ev2)"
    using a1 b1 by (fastforce simp: sorted_append)
  have u: "\<forall>p\<in>set (steps ev1 @ steps ev2). p \<le> hi"
    using a1 b1 by auto
  have c: "set (lo # steps ev1 @ steps ev2) = {lo .. hi}" if "is_ok r"
  proof -
    from b2 that have "set (mid # steps ev2) = {mid .. hi}" by simp
    moreover have "mid \<in> set (lo # steps ev1)" using a2 a1 by simp
    ultimately have "set (lo # steps ev1 @ steps ev2) = {lo .. mid} \<union> {mid .. hi}"
      using a2 by auto
    then show ?thesis using a1 b1 by auto
  qed
  show ?thesis
    using a1 b1 s u c by (simp add: advances_def list_all_iff)
qed

lemma advances_fail:
  "advances lo mid ev (Inl e :: error + 'x) \<Longrightarrow> mid \<le> hi \<Longrightarrow> advances lo hi ev (Inl e :: error + 'y)"
  by (auto simp: advances_def list_all_iff)

lemma advances_le: "emits (advances lo hi) (m :: ('x, 'a, 'o) prog) \<Longrightarrow> lo \<le> hi"
  unfolding emits_def advances_def by blast

lemma adv_seq:
  assumes m: "emits (advances lo mid) m" and f: "\<And>x. emits (advances mid hi) (f x)"
  shows "emits (advances lo hi) (seq m f)"
proof (rule emits_seq [where ?Q1.0 = "advances lo mid" and ?Q2.0 = "\<lambda>x. advances mid hi"])
  show "emits (advances lo mid) m" by (rule m)
  show "\<And>x. emits (advances mid hi) (f x)" by (rule f)
  have le: "mid \<le> hi" using f advances_le by blast
  show "\<And>ev e. advances lo mid ev (Inl e) \<Longrightarrow> advances lo hi ev (Inl e)"
    using le advances_fail by blast
  show "\<And>ev1 x ev2 r. advances lo mid ev1 (Inr x) \<Longrightarrow> advances mid hi ev2 r \<Longrightarrow>
          advances lo hi (ev1 @ ev2) r"
    by (rule advances_append)
qed

lemma adv_call:
  "(case step_of c of None \<Rightarrow> hi = lo | Some q \<Rightarrow> hi = q \<and> (q = lo \<or> q = Suc lo)) \<Longrightarrow>
     emits (advances lo hi) (call c r)"
  by (rule emits_call) (rule advances_single)

lemma adv_call_void:
  "(case step_of c of None \<Rightarrow> hi = lo | Some q \<Rightarrow> hi = q \<and> (q = lo \<or> q = Suc lo)) \<Longrightarrow>
     emits (advances lo hi) (call_void L c)"
  by (rule emits_call_void) (rule advances_single)

lemma adv_ret: "lo = hi \<Longrightarrow> emits (advances lo hi) (ret x)"
  by (rule emits_ret) (rule advances_Nil)

lemma adv_subscript: "lo = hi \<Longrightarrow> emits (advances lo hi) (subscript d k)"
  by (auto intro!: emits_subscript advances_Nil)

lemma adv_set_rn_model: "lo = hi \<Longrightarrow> emits (advances lo hi) (set_rn_model m)"
  by (rule emits_set_rn_model) (rule advances_Nil)

lemma adv_forward: "emits (advances 4 4) (forward L x)"
  by (rule emits_forward) (simp add: advances_single)

lemma adv_seq_same:
  "emits (advances p p) m \<Longrightarrow> (\<And>x. emits (advances p p) (f x)) \<Longrightarrow> emits (advances p p) (seq m f)"
  by (rule adv_seq)

lemma adv_infer: "emits (advances 4 4) (infer L dev b)"
  unfolding infer_def Let_def
  by (intro adv_seq_same emits_no_grad adv_forward adv_call adv_call_void adv_ret) simp_all

lemma adv_extract_batches: "emits (advances 4 4) (extract_batches L dev k bs acc)"
proof (induction bs arbitrary: acc)
  case Nil
  show ?case by (simp add: adv_ret)
next
  case (Cons b bs)
  show ?case
    unfolding extract_batches.simps by (intro adv_seq_same adv_infer Cons.IH)
qed

lemma adv_stack_items: "emits (advances 4 4) (stack_items d)"
proof (induction d rule: stack_items.induct)
  case 1
  show ?case by (simp add: adv_ret)
next
  case (2 k v d)
  show ?case
    unfolding stack_items.simps by (intro adv_seq_same adv_call adv_ret 2) simp_all
qed

lemma adv_array_items: "emits (advances 4 4) (array_items L d)"
proof (induction d rule: array_items.induct)
  case (1 L)
  show ?case by (simp add: adv_ret)
next
  case (2 L k v d)
  show ?case
    unfolding array_items.simps by (intro adv_seq_same adv_call_void adv_ret 2) simp_all
qed

lemma adv_extraction_cell: "emits (advances 3 4) (extraction_cell L dev dm)"
  unfolding extraction_cell_def extract_loader_def Let_def
  apply (rule adv_seq [where mid = 4])
   apply (rule adv_call, simp)
  apply (intro adv_seq_same adv_extract_batches adv_stack_items adv_array_items
      adv_call adv_ret)
       apply simp_all
  done

lemma adv_datamodule_cell: "emits (advances 0 0) (datamodule_cell L)"
  unfolding datamodule_cell_def
  by (intro adv_seq_same adv_call adv_call_void) simp_all

lemma adv_plot_cell: "emits (advances 1 3) (plot_cell L dm)"
  unfolding plot_cell_def
  apply (rule adv_seq [where mid = 2], rule adv_call, simp)
  apply (rule adv_seq [where mid = 2], rule adv_call, simp)
  apply (rule adv_seq [where mid = 2], rule adv_call, simp)
  apply (rule adv_seq [where mid = 3], rule adv_call_void, simp)
  apply (rule adv_ret, simp)
  done

lemma adv_device_cell: "emits (advances 3 3) (device_cell L)"
  unfolding device_cell_def
  by (intro adv_seq_same adv_call adv_ret) simp_all

lemma adv_model_cell: "emits (advances 3 3) (model_cell L dev)"
  unfolding model_cell_def
  by (intro adv_seq_same adv_call adv_call_void adv_set_rn_model) simp_all

lemma adv_classifier_cell: "emits (advances 4 6) (classifier_cell L E Lb)"
  unfolding classifier_cell_def
  apply (rule adv_seq [where mid = 4], rule adv_call, simp)
  apply (rule adv_seq [where mid = 4], rule adv_subscript, simp)
  apply (rule adv_seq [where mid = 4], rule adv_subscript, simp)
  apply (rule adv_seq [where mid = 5], rule adv_call, simp)
  apply (rule adv_seq [where mid = 5], rule adv_subscript, simp)
  apply (rule adv_seq [where mid = 6], rule adv_call, simp)
  apply (intro adv_seq_same adv_subscript adv_call adv_call_void)
     apply simp_all
  done

lemma adv_trainer_cells: "emits (advances 6 8) (trainer_cells L)"
  unfolding trainer_cells_def
  apply (rule adv_seq [where mid = 6], rule adv_call_void, simp)
  apply (rule adv_seq [where mid = 6], rule adv_call_void, simp)
  apply (rule adv_seq [where mid = 6], rule adv_call_void, simp)
  apply (rule adv_seq [where mid = 6], rule adv_call_void, simp)
  apply (rule adv_seq [where mid = 6], rule adv_call_void, simp)
  apply (rule adv_seq [where mid = 7], rule adv_call_void, simp)
  apply (rule adv_call_void, simp)
  done

lemma adv_notebook: "emits (advances 0 8) (notebook L)"
  unfolding notebook_def cells_to_extraction_def cells_after_extraction_def prepare_cell_def
    Let_def
  apply (rule adv_seq [where mid = 4])
   apply (rule adv_seq [where mid = 0], rule adv_call_void, simp)
   apply (rule adv_seq [where mid = 0], rule adv_call_void, simp)
   apply (rule adv_seq [where mid = 0], rule adv_datamodule_cell)
   apply (rule adv_seq [where mid = 1], rule adv_call_void, simp)
   apply (rule adv_seq [where mid = 3], rule adv_plot_cell)
   apply (rule adv_seq [where mid = 3], rule adv_device_cell)
   apply (rule adv_seq [where mid = 3], rule adv_model_cell)
   apply (rule adv_extraction_cell)
  apply (rule adv_seq [where mid = 6], rule adv_classifier_cell)
  apply (rule adv_trainer_cells)
  done


lemma step_of_pos: "step_of c = Some q \<Longrightarrow> 0 < q"
  by (cases c) simp_all

lemma steps_pos:
  fixes ev :: "('a call \<times> outcome) list"
  assumes "p \<in> set (steps ev)"
  shows "1 \<le> p"
proof -
  from assms obtain c :: "'a call" where "step_of c = Some p"
    by (auto simp: steps_def List.map_filter_def)
  then have "0 < p" by (rule step_of_pos)
  then show ?thesis by simp
qed

lemma order_of_run:
  assumes "notebook L s = (r, s')"
  shows "sorted (steps (events_since s s'))
       \<and> list_all (\<lambda>p. 1 \<le> p \<and> p \<le> 8) (steps (events_since s s'))
       \<and> (r = Inr () \<longrightarrow> set (steps (events_since s s')) = {1 .. 8})"
proof -
  let ?st = "steps (events_since s s')"
  from emitsD [OF adv_notebook assms] have a: "advances 0 8 (events_since s s') r"
    by simp
  then have s: "sorted ?st" and u: "\<forall>p\<in>set ?st. p \<le> 8"
    by (simp_all add: advances_def list_all_iff)
  have l: "\<forall>p\<in>set ?st. 1 \<le> p" using steps_pos by blast
  have c: "set ?st = {1 .. 8}" if "r = Inr ()"
  proof -
    from a that have z: "set (0 # ?st) = {0 .. 8}" by (simp add: advances_def)
    have "{1 .. 8} \<subseteq> set ?st"
    proof
      fix p :: nat
      assume "p \<in> {1 .. 8}"
      then have "p \<in> {0 .. 8}" and "p \<noteq> 0" by simp_all
      then have "p \<in> set (0 # ?st)" using z by blast
      then show "p \<in> set ?st" using \<open>p \<noteq> 0\<close> by simp
    qed
    moreover have "set ?st \<subseteq> {1 .. 8}" using l u by auto
    ultimately show ?thesis by blast
  qed
  show ?thesis using s u l c by (simp add: list_all_iff)
qed

text \<open>
  Claim C6. In every run of the notebook, complete or cut short by an exception, the
  library calls of the eight steps (download, setup, plot, embedding inference over the
  train and test dataloaders, fit of the classical model, its evaluation, fit of the deep
  model, its evaluation) occur in this order: the step numbers along the trace never
  decrease. A run that completes has made the calls of all eight steps.
\<close>

theorem notebook_order:
  "sorted (steps (events_since s (snd (notebook L s))))
   \<and> list_all (\<lambda>p. 1 \<le> p \<and> p \<le> 8) (steps (events_since s (snd (notebook L s))))
   \<and> (fst (notebook L s) = Inr () \<longrightarrow>
        set (steps (events_since s (snd (notebook L s)))) = {1 .. 8})"
  using order_of_run [of L s "fst (notebook L s)" "snd (notebook L s)"] by simp

theorem notebook_order_witness:
  "fst (notebook (example_lib example_dm) start) = Inr ()
   \<and> steps (events_since start (snd (notebook (example_lib example_dm) start))) =
       [1, 2, 2, 3, 4, 4, 4, 4, 4, 4, 4, 4, 4, 4, 4, 4, 4, 4, 4, 4, 4, 4, 4, 4, 4, 4, 4, 4, 4,
        5, 6, 6, 6, 7, 8]
   \<and> set (steps (events_since start (snd (notebook (example_lib example_dm) start)))) = {1 .. 8}"
proof -
  have r: "fst (notebook (example_lib example_dm) start) = Inr ()"
    by (rule notebook_example(1))
  have "set (steps (events_since start (snd (notebook (example_lib example_dm) start)))) = {1 .. 8}"
    using notebook_order [of start "example_lib example_dm"] r by blast
  moreover have "steps (events_since start (snd (notebook (example_lib example_dm) start))) =
       [1, 2, 2, 3, 4, 4, 4, 4, 4, 4, 4, 4, 4, 4, 4, 4, 4, 4, 4, 4, 4, 4, 4, 4, 4, 4, 4, 4, 4,
        5, 6, 6, 6, 7, 8]"
    unfolding notebook_example(2) by (simp add: steps_def List.map_filter_simps)
  ultimately show ?thesis using r by blast
qed

section \<open>A run without failing calls\<close>


lemma completes_seq:
  "emits completes m \<Longrightarrow> (\<And>x. emits completes (f x)) \<Longrightarrow> emits completes (seq m f)"
  by (rule emits_seq [where ?Q1.0 = completes and ?Q2.0 = "\<lambda>x. completes"])
     (auto simp: completes_def)

lemma completes_single: "completes [(c, outcome_of r)] r"
  by (cases r) (simp_all add: completes_def outcome_of_def clean_def)

lemma completes_Nil: "completes [] (Inr x)"
  by (simp add: completes_def)

lemmas completes_rules =
  completes_seq emits_ret [where Q = completes]
  emits_call [where Q = completes] emits_call_void [where Q = completes]
  emits_forward [where Q = completes] emits_no_grad [where Q = completes]
  emits_set_rn_model [where Q = completes]
  completes_Nil completes_single

lemma completes_infer: "emits completes (infer L dev b)"
  unfolding infer_def Let_def by (intro completes_rules)

lemma completes_extract_batches: "emits completes (extract_batches L dev k bs acc)"
proof (induction bs arbitrary: acc)
  case Nil
  show ?case by (simp add: completes_rules)
next
  case (Cons b bs)
  show ?case
    unfolding extract_batches.simps by (intro completes_rules completes_infer Cons.IH)
qed

lemma completes_stack_items: "emits completes (stack_items d)"
  by (induction d rule: stack_items.induct) (auto intro!: completes_rules)

lemma completes_array_items: "emits completes (array_items L d)"
  by (induction d rule: array_items.induct) (auto intro!: completes_rules)

lemma completes_cells_to_extraction: "emits completes (cells_to_extraction L)"
  unfolding cells_to_extraction_def
    datamodule_cell_def prepare_cell_def plot_cell_def device_cell_def model_cell_def
    extraction_cell_def extract_loader_def Let_def
  by (intro completes_rules completes_extract_batches completes_stack_items
      completes_array_items)


lemma subscript_Some: "dict_get d k = Some v \<Longrightarrow> subscript d k = ret v"
  by (simp add: subscript_def)

lemma completes_cells_after:
  assumes "dict_get E ''train'' = Some x_train" "dict_get Lb ''train'' = Some y_train"
    "dict_get E ''test'' = Some x_test" "dict_get Lb ''test'' = Some y_test"
  shows "emits completes (cells_after_extraction L (E, Lb))"
  unfolding cells_after_extraction_def classifier_cell_def trainer_cells_def fst_conv snd_conv
    assms [THEN subscript_Some]
  by (intro completes_rules)



lemma dict_get_Some: "k \<in> set (keys d) \<Longrightarrow> \<exists>v. dict_get d k = Some v"
  using dict_get_None [of d k] by (cases "dict_get d k") simp_all

lemma extraction_keys:
  "fst (extraction_cell L dev dm s) = Inr d \<Longrightarrow> keys (snd d) = keys (fst d)"
  using extraction_result [of L dev dm s "fst d" "snd d"] by auto

lemma seq_resultE:
  assumes "fst (seq m f s) = Inr y"
  obtains x s1 where "fst (f x s1) = Inr y"
  using assms by (auto simp: seq_def split: prod.splits sum.splits)

lemma cells_to_extraction_keys:
  assumes "fst (cells_to_extraction L s) = Inr d"
  shows "keys (snd d) = keys (fst d)"
  using assms unfolding cells_to_extraction_def Let_def
  by (elim seq_resultE) (rule extraction_keys)



lemma events_since_seq:
  assumes "trace s1 = trace s @ ev1" "trace s2 = trace s1 @ ev2"
  shows "events_since s s2 = ev1 @ ev2" "events_since s1 s2 = ev2" "events_since s s1 = ev1"
  using assms by (simp_all add: events_since_def)

lemma completes_of_run:
  assumes run: "notebook L s = (r, s')"
    and cl: "clean (events_since s s')"
    and k1: "''train'' \<in> set (extracted_keys L s)"
    and k2: "''test'' \<in> set (extracted_keys L s)"
  shows "r = Inr ()"
proof -
  obtain r1 s1 where cte: "cells_to_extraction L s = (r1, s1)"
    by (cases "cells_to_extraction L s")
  from k1 cte obtain d where d: "r1 = Inr d"
    by (cases r1) (simp_all add: extracted_keys_def)
  obtain E Lb where p: "d = (E, Lb)" by (cases d)
  have kE: "''train'' \<in> set (keys E)" "''test'' \<in> set (keys E)"
    using k1 k2 cte d p by (simp_all add: extracted_keys_def)
  have "keys Lb = keys E"
    using cells_to_extraction_keys [of L s d] cte d p by simp
  then have kL: "''train'' \<in> set (keys Lb)" "''test'' \<in> set (keys Lb)"
    using kE by simp_all
  obtain x_train where g1: "dict_get E ''train'' = Some x_train"
    using dict_get_Some [OF kE(1)] by blast
  obtain y_train where g2: "dict_get Lb ''train'' = Some y_train"
    using dict_get_Some [OF kL(1)] by blast
  obtain x_test where g3: "dict_get E ''test'' = Some x_test"
    using dict_get_Some [OF kE(2)] by blast
  obtain y_test where g4: "dict_get Lb ''test'' = Some y_test"
    using dict_get_Some [OF kL(2)] by blast
  have rest: "cells_after_extraction L (E, Lb) s1 = (r, s')"
    using run cte d p by (simp add: notebook_def seq_def)
  from completes_cells_to_extraction cte obtain ev1 where
    t1: "trace s1 = trace s @ ev1"
    by (rule emitsE)
  from completes_cells_after [OF g1 g2 g3 g4] rest obtain ev2 where
    t2: "trace s' = trace s1 @ ev2" and c2: "completes ev2 r"
    by (rule emitsE)
  have "events_since s s' = ev1 @ ev2"
    using t1 t2 by (rule events_since_seq(1))
  with cl have "clean ev2" by simp
  with c2 show ?thesis by (simp add: completes_def is_ok_unit)
qed

text \<open>
  Claim C8, as the code has it. If every library call of a run returns and the
  embeddings dictionary has both keys \<^verbatim>\<open>'train'\<close> and \<^verbatim>\<open>'test'\<close> after the extraction
  cell (each of the two loops appended at least one pair), the notebook runs to its
  last cell and raises nothing.
\<close>

theorem notebook_completes:
  assumes "clean (events_since s (snd (notebook L s)))"
    and "''train'' \<in> set (extracted_keys L s)"
    and "''test'' \<in> set (extracted_keys L s)"
  shows "fst (notebook L s) = Inr ()"
  using completes_of_run [of L s "fst (notebook L s)" "snd (notebook L s)"] assms by simp

theorem notebook_completes_witness:
  "clean (events_since start (snd (notebook (example_lib example_dm) start)))
   \<and> ''train'' \<in> set (extracted_keys (example_lib example_dm) start)
   \<and> ''test'' \<in> set (extracted_keys (example_lib example_dm) start)
   \<and> fst (notebook (example_lib example_dm) start) = Inr ()"
proof -
  have c: "clean (events_since start (snd (notebook (example_lib example_dm) start)))"
    unfolding notebook_example(2) by (simp add: clean_def)
  have k: "''train'' \<in> set (extracted_keys (example_lib example_dm) start)"
    "''test'' \<in> set (extracted_keys (example_lib example_dm) start)"
    by (simp_all add: extracted_keys_def cells_to_extraction_example keys_def)
  show ?thesis
    using notebook_completes [OF c k] c k by blast
qed

text \<open>
  The claim as it was written asks only that the calls return and the dataloaders be
  finite. With a train dataloader that yields no batch, every call returns, and the
  classifier cell raises \<^verbatim>\<open>KeyError: 'train'\<close> at \<^verbatim>\<open>embeddings['train']\<close>.
\<close>

theorem notebook_completes_counterexample:
  "clean (events_since start (snd (notebook empty_train_lib start)))
   \<and> fst (notebook empty_train_lib start) = Inl (KeyError ''train'')"
  unfolding notebook_empty_train by (simp add: clean_def)

lemma propagate_of_run:
  assumes run: "notebook L s = (r, s')"
    and ev: "(c, Raised e) \<in> set (events_since s s')"
  shows "r = Inl e
       \<and> events_since s s' = butlast (events_since s s') @ [(c, Raised e)]
       \<and> clean (butlast (events_since s s'))
       \<and> trace s' = trace s @ events_since s s'"
proof -
  from faithful_notebook run obtain evs where
    t: "trace s' = trace s @ evs" and es: "events_since s s' = evs" and f: "faithful evs r"
    by (rule emitsE)
  have nc: "\<not> clean evs"
  proof
    assume "clean evs"
    then have "\<forall>x\<in>set evs. snd x = Returned" by (simp add: clean_def list_all_iff)
    with ev es have "snd (c, Raised e) = Returned" by blast
    then show False by simp
  qed
  with f have ne: "evs \<noteq> []" and cb: "clean (butlast evs)"
    and la: "case snd (last evs) of Raised e' \<Rightarrow> r = Inl e' | Returned \<Rightarrow> False"
    by (simp_all add: faithful_def)
  have "(c, Raised e) \<notin> set (butlast evs)"
  proof
    assume a: "(c, Raised e) \<in> set (butlast evs)"
    from cb have "\<forall>x\<in>set (butlast evs). snd x = Returned"
      by (simp add: clean_def list_all_iff)
    with a have "snd (c, Raised e) = Returned" by blast
    then show False by simp
  qed
  note notin = this
  have id: "butlast evs @ [last evs] = evs"
    using ne by (rule append_butlast_last_id)
  have "(c, Raised e) \<in> set (butlast evs @ [last evs])"
    unfolding id using ev es by simp
  then have l: "last evs = (c, Raised e)"
    using notin by simp
  with la have "r = Inl e" by simp
  moreover have "evs = butlast evs @ [(c, Raised e)]"
    using id unfolding l by simp
  ultimately show ?thesis using cb t es by simp
qed

text \<open>
  Claim C7. When a library call raises, the run ends with that same exception, the
  failing call is the last call the run makes (nothing is retried, no later step is
  started, no recovery call is made), and every call before it had returned.
\<close>

theorem failures_propagate:
  assumes "(c, Raised e) \<in> set (events_since s (snd (notebook L s)))"
  shows "fst (notebook L s) = Inl e
       \<and> events_since s (snd (notebook L s)) =
           butlast (events_since s (snd (notebook L s))) @ [(c, Raised e)]
       \<and> clean (butlast (events_since s (snd (notebook L s))))
       \<and> trace (snd (notebook L s)) = trace s @ events_since s (snd (notebook L s))"
  using propagate_of_run [of L s "fst (notebook L s)" "snd (notebook L s)"] assms by simp

theorem failures_propagate_witness:
  "(Plot, Raised (External ''plot'')) \<in> set (events_since start (snd (notebook failing_lib start)))
   \<and> fst (notebook failing_lib start) = Inl (External ''plot'')
   \<and> last (events_since start (snd (notebook failing_lib start))) = (Plot, Raised (External ''plot''))"
proof -
  have m: "(Plot, Raised (External ''plot'')) \<in>
      set (events_since start (snd (notebook failing_lib start)))"
    unfolding notebook_failing(2) by simp
  have "fst (notebook failing_lib start) = Inl (External ''plot'')"
    using failures_propagate [OF m] by blast
  moreover have "last (events_since start (snd (notebook failing_lib start))) =
      (Plot, Raised (External ''plot''))"
    unfolding notebook_failing(2) by simp
  ultimately show ?thesis using m by blast
qed

lemma silent_seq:
  "emits silent m \<Longrightarrow> (\<And>x. emits silent (f x)) \<Longrightarrow> emits silent (seq m f)"
  by (rule emits_seq [where ?Q1.0 = silent and ?Q2.0 = "\<lambda>x. silent"])
     (auto simp: silent_def classical_calls_def)

lemma silent_single: "\<not> classical c \<Longrightarrow> silent [(c, out)] r"
  by (simp add: silent_def classical_calls_def)

lemma silent_Nil: "silent [] r"
  by (simp add: silent_def classical_calls_def)

lemmas silent_rules =
  silent_seq emits_ret [where Q = silent] emits_raise [where Q = silent]
  emits_call [where Q = silent] emits_call_void [where Q = silent]
  emits_forward [where Q = silent] emits_no_grad [where Q = silent]
  emits_subscript [where Q = silent] emits_set_rn_model [where Q = silent]
  silent_Nil silent_single

lemma silent_infer: "emits silent (infer L dev b)"
  unfolding infer_def Let_def by (intro silent_rules) simp_all

lemma silent_extract_batches: "emits silent (extract_batches L dev k bs acc)"
proof (induction bs arbitrary: acc)
  case Nil
  show ?case by (simp add: silent_rules)
next
  case (Cons b bs)
  show ?case
    unfolding extract_batches.simps by (intro silent_rules silent_infer Cons.IH)
qed

lemma silent_stack_items: "emits silent (stack_items d)"
proof (induction d rule: stack_items.induct)
  case 1
  show ?case by (simp add: silent_rules)
next
  case (2 k v d)
  show ?case
    unfolding stack_items.simps by (intro silent_rules 2) simp_all
qed

lemma silent_array_items: "emits silent (array_items L d)"
proof (induction d rule: array_items.induct)
  case (1 L)
  show ?case by (simp add: silent_rules)
next
  case (2 L k v d)
  show ?case
    unfolding array_items.simps by (intro silent_rules 2) simp_all
qed

lemma silent_cells_to_extraction: "emits silent (cells_to_extraction L)"
  unfolding cells_to_extraction_def
    datamodule_cell_def prepare_cell_def plot_cell_def device_cell_def model_cell_def
    extraction_cell_def extract_loader_def Let_def
  by (intro silent_rules silent_extract_batches silent_stack_items silent_array_items)
     simp_all

lemma silent_trainer_cells: "emits silent (trainer_cells L)"
  unfolding trainer_cells_def by (intro silent_rules) simp_all


lemma subscript_returns:
  "subscript d k s = (Inr v, s') \<longleftrightarrow> dict_get d k = Some v \<and> s' = s"
  by (auto simp: subscript_def raise_def ret_def split: option.splits)

lemma call_void_returns:
  "call_void L c s = (Inr x, s') \<longleftrightarrow>
     raises L c = None \<and> s' = s\<lparr>trace := trace s @ [(c, Returned)]\<rparr>"
  by (auto simp: call_void_def call_returns split: option.splits)

lemma classifier_cell_returns:
  assumes "classifier_cell L E Lb s = (Inr u, s')"
  shows "\<exists>x_train y_train x_test y_test clf clf' preds report.
      dict_get E ''train'' = Some x_train \<and> dict_get Lb ''train'' = Some y_train
    \<and> dict_get E ''test'' = Some x_test \<and> dict_get Lb ''test'' = Some y_test
    \<and> new_random_forest L = Inr clf \<and> clf_fit L clf x_train y_train = Inr clf'
    \<and> clf_predict L clf' x_test = Inr preds
    \<and> classification_report L y_test preds = Inr report
    \<and> trace s' = trace s @
        [(NewRandomForest, Returned), (ClfFit x_train y_train, Returned),
         (ClfPredict x_test, Returned), (ClassificationReport y_test preds, Returned),
         (Print report, Returned)]"
  using assms unfolding classifier_cell_def
  by (auto simp: seq_returns call_returns subscript_returns call_void_returns)

lemma classical_calls_of_run:
  assumes cte: "cells_to_extraction L s = (Inr d, s1)"
    and clf: "classifier_cell L (fst d) (snd d) s1 = (Inr u, s2)"
  shows "\<exists>x_train y_train x_test y_test clf clf' preds report.
      dict_get (fst d) ''train'' = Some x_train \<and> dict_get (snd d) ''train'' = Some y_train
    \<and> dict_get (fst d) ''test'' = Some x_test \<and> dict_get (snd d) ''test'' = Some y_test
    \<and> new_random_forest L = Inr clf \<and> clf_fit L clf x_train y_train = Inr clf'
    \<and> clf_predict L clf' x_test = Inr preds
    \<and> classification_report L y_test preds = Inr report
    \<and> classical_calls (events_since s (snd (notebook L s))) =
        [(ClfFit x_train y_train, Returned), (ClfPredict x_test, Returned),
         (ClassificationReport y_test preds, Returned), (Print report, Returned)]"
proof -
  obtain r s' where tr: "trainer_cells L s2 = (r, s')"
    by (cases "trainer_cells L s2")
  have run: "snd (notebook L s) = s'"
    using cte clf tr by (simp add: notebook_def cells_after_extraction_def seq_def)
  from silent_cells_to_extraction cte obtain ev1 where
    t1: "trace s1 = trace s @ ev1" and q1: "silent ev1 (Inr d)"
    by (rule emitsE)
  from silent_trainer_cells tr obtain ev3 where
    t3: "trace s' = trace s2 @ ev3" and q3: "silent ev3 r"
    by (rule emitsE)
  from classifier_cell_returns [OF clf] obtain x_train y_train x_test y_test clf clf' preds report
    where g: "dict_get (fst d) ''train'' = Some x_train" "dict_get (snd d) ''train'' = Some y_train"
      "dict_get (fst d) ''test'' = Some x_test" "dict_get (snd d) ''test'' = Some y_test"
      "new_random_forest L = Inr clf" "clf_fit L clf x_train y_train = Inr clf'"
      "clf_predict L clf' x_test = Inr preds"
      "classification_report L y_test preds = Inr report"
    and t2: "trace s2 = trace s1 @
        [(NewRandomForest, Returned), (ClfFit x_train y_train, Returned),
         (ClfPredict x_test, Returned), (ClassificationReport y_test preds, Returned),
         (Print report, Returned)]"
    by blast
  have "events_since s s' = ev1 @
        [(NewRandomForest, Returned), (ClfFit x_train y_train, Returned),
         (ClfPredict x_test, Returned), (ClassificationReport y_test preds, Returned),
         (Print report, Returned)] @ ev3"
    using t1 t2 t3 by (simp add: events_since_def)
  then have "classical_calls (events_since s (snd (notebook L s))) =
        [(ClfFit x_train y_train, Returned), (ClfPredict x_test, Returned),
         (ClassificationReport y_test preds, Returned), (Print report, Returned)]"
    using q1 q3 unfolding run by (simp add: silent_def classical_calls_def)
  then show ?thesis using g by blast
qed

text \<open>
  Claim C5. Whenever the cells up to and including the classifier cell complete
  (whatever the trainer cells do afterwards), the whole run makes exactly four calls of
  the kinds \<^verbatim>\<open>fit\<close>, \<^verbatim>\<open>predict\<close>, \<^verbatim>\<open>classification_report\<close> and \<^verbatim>\<open>print\<close>, each
  returns, and they are, in this order: \<^verbatim>\<open>fit\<close> on the train entry of the embeddings
  dictionary and the train entry of the labels dictionary, as the extraction cell left
  them; \<^verbatim>\<open>predict\<close>, by the classifier \<^verbatim>\<open>fit\<close> returned, on the test entry of the
  embeddings; \<^verbatim>\<open>classification_report\<close> on the test entry of the labels and the
  predictions \<^verbatim>\<open>predict\<close> returned; and \<^verbatim>\<open>print\<close> of the report that call returned.
\<close>

theorem classifier_data:
  assumes "fst (seq (cells_to_extraction L) (\<lambda>d. classifier_cell L (fst d) (snd d)) s) = Inr ()"
  shows "\<exists>embeddings labels x_train y_train x_test y_test clf clf' preds report.
      fst (cells_to_extraction L s) = Inr (embeddings, labels)
    \<and> dict_get embeddings ''train'' = Some x_train \<and> dict_get labels ''train'' = Some y_train
    \<and> dict_get embeddings ''test'' = Some x_test \<and> dict_get labels ''test'' = Some y_test
    \<and> new_random_forest L = Inr clf \<and> clf_fit L clf x_train y_train = Inr clf'
    \<and> clf_predict L clf' x_test = Inr preds
    \<and> classification_report L y_test preds = Inr report
    \<and> classical_calls (events_since s (snd (notebook L s))) =
        [(ClfFit x_train y_train, Returned), (ClfPredict x_test, Returned),
         (ClassificationReport y_test preds, Returned), (Print report, Returned)]"
proof -
  from assms obtain d s1 where cte: "cells_to_extraction L s = (Inr d, s1)"
    and c: "fst (classifier_cell L (fst d) (snd d) s1) = Inr ()"
    unfolding fst_seq_returns by blast
  obtain s2 where clf: "classifier_cell L (fst d) (snd d) s1 = (Inr (), s2)"
    using c by (cases "classifier_cell L (fst d) (snd d) s1") simp
  have e: "fst (cells_to_extraction L s) = Inr (fst d, snd d)"
    using cte by simp
  from classical_calls_of_run [OF cte clf] e show ?thesis by blast
qed

theorem classifier_data_witness:
  "fst (seq (cells_to_extraction trainer_failing_lib)
          (\<lambda>d. classifier_cell trainer_failing_lib (fst d) (snd d)) start) = Inr ()
   \<and> fst (notebook trainer_failing_lib start) = Inl (External ''fit'')
   \<and> fst (cells_to_extraction trainer_failing_lib start) =
       Inr ([(''train'', [[100, 101, 102, 103], [101, 102, 103, 104]]),
             (''test'', [[300, 301, 302, 303]])],
            [(''train'', [0, 1]), (''test'', [0])])
   \<and> classical_calls (events_since start (snd (notebook trainer_failing_lib start))) =
       [(ClfFit [[100, 101, 102, 103], [101, 102, 103, 104]] [0, 1], Returned),
        (ClfPredict [[300, 301, 302, 303]], Returned),
        (ClassificationReport [0] [1], Returned),
        (Print ''report'', Returned)]"
proof -
  have h: "fst (seq (cells_to_extraction trainer_failing_lib)
          (\<lambda>d. classifier_cell trainer_failing_lib (fst d) (snd d)) start) = Inr ()"
    by (simp add: run_simps infer_trainer_failing trainer_failing_lib_fields subsample_example
        start_def cong: weak_congs)
  have r: "fst (notebook trainer_failing_lib start) = Inl (External ''fit'')"
    by (simp add: run_simps infer_trainer_failing trainer_failing_lib_fields subsample_example
        start_def cong: weak_congs)
  have x: "fst (cells_to_extraction trainer_failing_lib start) =
       Inr ([(''train'', [[100, 101, 102, 103], [101, 102, 103, 104]]),
             (''test'', [[300, 301, 302, 303]])],
            [(''train'', [0, 1]), (''test'', [0])])"
    by (simp add: run_simps infer_trainer_failing trainer_failing_lib_fields subsample_example
        start_def cong: weak_congs)
  from classifier_data [OF h] obtain embeddings labels x_train y_train x_test y_test preds clf'
      report
    where e: "fst (cells_to_extraction trainer_failing_lib start) = Inr (embeddings, labels)"
      and g: "dict_get embeddings ''train'' = Some x_train"
        "dict_get labels ''train'' = Some y_train"
        "dict_get embeddings ''test'' = Some x_test"
        "dict_get labels ''test'' = Some y_test"
      and p: "clf_predict trainer_failing_lib clf' x_test = Inr preds"
      and q: "classification_report trainer_failing_lib y_test preds = Inr report"
      and d: "classical_calls (events_since start (snd (notebook trainer_failing_lib start))) =
        [(ClfFit x_train y_train, Returned), (ClfPredict x_test, Returned),
         (ClassificationReport y_test preds, Returned), (Print report, Returned)]"
    by blast
  from e have eq: "embeddings = [(''train'', [[100, 101, 102, 103], [101, 102, 103, 104]]),
             (''test'', [[300, 301, 302, 303]])]"
      "labels = [(''train'', [0, 1]), (''test'', [0])]"
    unfolding x by simp_all
  from g have v: "x_train = [[100, 101, 102, 103], [101, 102, 103, 104]]" "y_train = [0, 1]"
      "x_test = [[300, 301, 302, 303]]" "y_test = [0]"
    unfolding eq by simp_all
  from p have "preds = [1]"
    unfolding v by (simp add: trainer_failing_lib_fields)
  moreover from q have "report = ''report''"
    by (simp add: trainer_failing_lib_fields)
  ultimately show ?thesis
    using d v h r x by simp
qed

section \<open>What \<open>infer\<close> changes\<close>
























end
